theory Spec2Isabelle
  imports Complex_Main "HOL-Library.Sublist"
begin

section \<open>Python values used by the tool manager\<close>

text \<open>
  Tool schemas and tool arguments are JSON documents that the Python code holds as
  \<open>dict\<close>/\<open>list\<close>/\<open>str\<close>/number/\<open>None\<close> values. A \<open>dict\<close> is an association list in
  insertion order; a Python dict never holds a key twice, which is the predicate
  \<open>distinct (map fst d)\<close> wherever a theorem needs it.
\<close>

datatype json =
    JNull
  | JBool bool
  | JInt int
  | JFloat rat
  | JStr string
  | JList "json list"
  | JDict "(string \<times> json) list"

text \<open>\<open>d.get(k, default)\<close>, \<open>k in d\<close> and \<open>d[k] = v\<close> on a dict.\<close>

definition dict_get :: "(string \<times> json) list \<Rightarrow> string \<Rightarrow> json \<Rightarrow> json" where
  "dict_get d k dflt = (case map_of d k of None \<Rightarrow> dflt | Some v \<Rightarrow> v)"

definition dict_has :: "(string \<times> json) list \<Rightarrow> string \<Rightarrow> bool" where
  "dict_has d k = (map_of d k \<noteq> None)"

primrec dict_set :: "string \<Rightarrow> json \<Rightarrow> (string \<times> json) list \<Rightarrow> (string \<times> json) list" where
  "dict_set k v [] = [(k, v)]"
| "dict_set k v (p # ps) = (if fst p = k then (k, v) # ps else p # dict_set k v ps)"

text \<open>\<open>isinstance(x, dict)\<close>.\<close>

fun is_dict :: "json \<Rightarrow> bool" where
  "is_dict (JDict _) = True"
| "is_dict _ = False"

text \<open>\<open>type(x).__name__\<close>.\<close>

fun type_name :: "json \<Rightarrow> string" where
  "type_name JNull = ''NoneType''"
| "type_name (JBool _) = ''bool''"
| "type_name (JInt _) = ''int''"
| "type_name (JFloat _) = ''float''"
| "type_name (JStr _) = ''str''"
| "type_name (JList _) = ''list''"
| "type_name (JDict _) = ''dict''"

text \<open>Python truthiness of a JSON value (\<open>if x:\<close>).\<close>

fun truthy :: "json \<Rightarrow> bool" where
  "truthy JNull = False"
| "truthy (JBool b) = b"
| "truthy (JInt n) = (n \<noteq> 0)"
| "truthy (JFloat x) = (x \<noteq> 0)"
| "truthy (JStr s) = (s \<noteq> [])"
| "truthy (JList xs) = (xs \<noteq> [])"
| "truthy (JDict d) = (d \<noteq> [])"

text \<open>
  Exceptions. \<open>BaseOnly\<close> stands for the classes that derive from \<open>BaseException\<close> but not
  from \<open>Exception\<close> (\<open>KeyboardInterrupt\<close>, \<open>asyncio.CancelledError\<close>, \<open>SystemExit\<close>): an
  \<open>except Exception\<close> clause does not catch them. \<open>OtherException\<close> is any other subclass
  of \<open>Exception\<close>; the string is \<open>str(e)\<close>.
\<close>

datatype py_exception =
    ConnectionError string
  | AttributeError string
  | OtherException string
  | BaseOnly string

fun is_Exception :: "py_exception \<Rightarrow> bool" where
  "is_Exception (BaseOnly _) = False"
| "is_Exception _ = True"

fun str_exc :: "py_exception \<Rightarrow> string" where
  "str_exc (ConnectionError m) = m"
| "str_exc (AttributeError m) = m"
| "str_exc (OtherException m) = m"
| "str_exc (BaseOnly m) = m"

section \<open>tools.py: schema conversion\<close>

text \<open>
  The body of the loop over \<open>mcp_schema["properties"].items()\<close> in
  \<open>_convert_mcp_schema_to_gemini\<close>: a property definition that is a dict is cleaned and
  stored under its name, any other value is skipped.
\<close>

definition clean_prop :: "(string \<times> json) list \<Rightarrow> (string \<times> json) list" where
  "clean_prop prop_def =
     (let c0 = [(''type'', dict_get prop_def ''type'' (JStr ''string''))];
          c1 = (if dict_has prop_def ''description''
                then dict_set ''description'' (dict_get prop_def ''description'' JNull) c0 else c0);
          c2 = (if dict_has prop_def ''enum''
                then dict_set ''enum'' (dict_get prop_def ''enum'' JNull) c1 else c1)
      in c2)"

fun convert_properties ::
  "(string \<times> json) list \<Rightarrow> (string \<times> json) list \<Rightarrow> (string \<times> json) list" where
  "convert_properties [] acc = acc"
| "convert_properties ((prop_name, prop_def) # rest) acc =
     (case prop_def of
        JDict d \<Rightarrow> convert_properties rest (dict_set prop_name (JDict (clean_prop d)) acc)
      | _ \<Rightarrow> convert_properties rest acc)"

text \<open>
  \<open>_convert_mcp_schema_to_gemini\<close>. A value under \<open>"properties"\<close> that is not a dict has
  no \<open>items\<close> method, so the call raises \<open>AttributeError\<close> with Python's message for
  a missing attribute.
\<close>

definition no_items_attribute :: "json \<Rightarrow> py_exception" where
  "no_items_attribute v =
     AttributeError ([CHR 0x27] @ type_name v @ [CHR 0x27] @ '' object has no attribute ''
                     @ [CHR 0x27] @ ''items'' @ [CHR 0x27])"

definition convert_mcp_schema_to_gemini :: "json \<Rightarrow> py_exception + json" where
  "convert_mcp_schema_to_gemini mcp_schema =
     (case mcp_schema of
        JDict d \<Rightarrow>
          (let g0 = [(''type'', dict_get d ''type'' (JStr ''object''))];
               g1 = (case map_of d ''properties'' of
                       None \<Rightarrow> Inr g0
                     | Some (JDict props) \<Rightarrow>
                         Inr (dict_set ''properties'' (JDict (convert_properties props [])) g0)
                     | Some v \<Rightarrow> Inl (no_items_attribute v))
           in case g1 of
                Inl e \<Rightarrow> Inl e
              | Inr g \<Rightarrow>
                  (case map_of d ''required'' of
                     None \<Rightarrow> Inr (JDict g)
                   | Some r \<Rightarrow> Inr (JDict (dict_set ''required'' r g))))
      | _ \<Rightarrow> Inr (JDict []))"

text \<open>
  The \<open>"required"\<close> entry that the conversion copies, and the shape of a converted
  properties map (used to state and prove idempotence).
\<close>

definition required_part :: "(string \<times> json) list \<Rightarrow> (string \<times> json) list" where
  "required_part d = (case map_of d ''required'' of None \<Rightarrow> [] | Some r \<Rightarrow> [(''required'', r)])"

definition cleaned :: "(string \<times> json) list \<Rightarrow> bool" where
  "cleaned qs \<longleftrightarrow>
     distinct (map fst qs) \<and> list_all (\<lambda>(k, v). \<exists>d. v = JDict (clean_prop d)) qs"

text \<open>The schema of the specification's example.\<close>

definition example_schema :: json where
  "example_schema =
     JDict [(''type'', JStr ''object''),
            (''properties'',
               JDict [(''x'', JDict [(''type'', JStr ''string''),
                                     (''description'', JStr ''d''),
                                     (''enum'', JList [JStr ''a'', JStr ''b''])])]),
            (''required'', JList [JStr ''x''])]"

section \<open>mcp_client.py: the protocol client\<close>

text \<open>
  The types of the \<open>mcp\<close> package that the code reads: a tool descriptor, the content
  items of a tool result (only \<open>TextContent\<close> carries \<open>text\<close>), and \<open>CallToolResult\<close>.
  \<open>t_inputSchema = None\<close> is a descriptor without the attribute (or with \<open>None\<close>).
\<close>

record Tool =
  t_name :: string
  t_description :: "string option"
  t_inputSchema :: "json option"

datatype content_item = TextContent string | OtherContent

record CallToolResult =
  r_content :: "content_item list"
  r_isError :: bool

text \<open>
  \<open>ClientSession\<close> is the connection to the tool-serving process. The server is outside
  the program, so it is a pair of behaviours that answer a request given everything the
  session has sent before (\<open>history\<close>): any deterministic server, with a tool set that
  changes over time or calls that fail, is such a pair. An answer is a value or a raised
  exception. The history is also the record of what was invoked.
\<close>

datatype request = ListTools | CallTool string json

record ClientSession =
  on_list_tools :: "request list \<Rightarrow> py_exception + Tool list"
  on_call_tool :: "request list \<Rightarrow> string \<Rightarrow> json \<Rightarrow> py_exception + CallToolResult option"
  history :: "request list"

text \<open>\<open>MCPClient\<close>: the field \<open>_session\<close>, \<open>None\<close> until \<open>connect\<close> and after \<open>cleanup\<close>.\<close>

record MCPClient =
  session_field :: "ClientSession option"

definition session_not_initialized :: py_exception where
  "session_not_initialized = ConnectionError
     ''Client session not initialized or cache not populated. Call connect_to_server first.''"

definition session :: "MCPClient \<Rightarrow> py_exception + ClientSession" where
  "session c =
     (case session_field c of
        None \<Rightarrow> Inl session_not_initialized
      | Some s \<Rightarrow> Inr s)"

definition list_tools :: "MCPClient \<Rightarrow> (py_exception + Tool list) \<times> MCPClient" where
  "list_tools c =
     (case session c of
        Inl e \<Rightarrow> (Inl e, c)
      | Inr s \<Rightarrow> (on_list_tools s (history s),
                  c\<lparr>session_field := Some (s\<lparr>history := history s @ [ListTools]\<rparr>)\<rparr>))"

definition call_tool ::
  "MCPClient \<Rightarrow> string \<Rightarrow> json \<Rightarrow> (py_exception + CallToolResult option) \<times> MCPClient" where
  "call_tool c tool_name tool_input =
     (case session c of
        Inl e \<Rightarrow> (Inl e, c)
      | Inr s \<Rightarrow> (on_call_tool s (history s) tool_name tool_input,
                  c\<lparr>session_field := Some (s\<lparr>history := history s @ [CallTool tool_name tool_input]\<rparr>)\<rparr>))"

text \<open>
  \<open>cleanup\<close>. The first argument is what the body of the \<open>try\<close> block does: \<open>None\<close> when
  the sleeps and \<open>_exit_stack.aclose()\<close> return, \<open>Some e\<close> when one of them raises \<open>e\<close>.
  \<open>except Exception: pass\<close> swallows \<open>e\<close> when it is an \<open>Exception\<close>; the \<open>finally\<close> clause
  clears \<open>_session\<close> on every path.
\<close>

definition cleanup :: "py_exception option \<Rightarrow> MCPClient \<Rightarrow> (py_exception + unit) \<times> MCPClient" where
  "cleanup teardown c =
     (let outcome = (case teardown of
                       None \<Rightarrow> Inr ()
                     | Some e \<Rightarrow> if is_Exception e then Inr () else Inl e)
      in (outcome, c\<lparr>session_field := None\<rparr>))"

section \<open>tools.py: catalog and invocation\<close>

text \<open>
  The \<open>clients\<close> argument is a dict from a name to an \<open>MCPClient\<close> object. The functions
  read \<open>clients.values()\<close> in insertion order; a call through a client changes that
  client's session, which \<open>with_values\<close> writes back under the same keys.
\<close>

type_synonym clients_dict = "(string \<times> MCPClient) list"

definition dict_values :: "clients_dict \<Rightarrow> MCPClient list" where
  "dict_values clients = map snd clients"

definition with_values :: "clients_dict \<Rightarrow> MCPClient list \<Rightarrow> clients_dict" where
  "with_values clients vs = zip (map fst clients) vs"

text \<open>The body of the inner loop of \<open>get_all_tools\<close>: one function declaration.\<close>

definition gemini_tool :: "Tool \<Rightarrow> py_exception + json" where
  "gemini_tool t =
     (let g0 = [(''name'', JStr (t_name t)),
                (''description'', (case t_description t of None \<Rightarrow> JNull | Some d \<Rightarrow> JStr d))]
      in case t_inputSchema t of
           None \<Rightarrow> Inr (JDict g0)
         | Some sch \<Rightarrow>
             if truthy sch then
               (case convert_mcp_schema_to_gemini sch of
                  Inl e \<Rightarrow> Inl e
                | Inr parameters \<Rightarrow>
                    (case parameters of
                       JDict p \<Rightarrow> if truthy parameters
                                  then Inr (JDict (dict_set ''parameters'' parameters g0))
                                  else Inr (JDict g0)
                     | _ \<Rightarrow> Inr (JDict g0)))
             else Inr (JDict g0))"

fun gemini_tools :: "Tool list \<Rightarrow> json list \<Rightarrow> py_exception + json list" where
  "gemini_tools [] tools = Inr tools"
| "gemini_tools (t # ts) tools =
     (case gemini_tool t of
        Inl e \<Rightarrow> Inl e
      | Inr g \<Rightarrow> gemini_tools ts (tools @ [g]))"

fun get_all_tools_loop ::
  "MCPClient list \<Rightarrow> json list \<Rightarrow> (py_exception + json list) \<times> MCPClient list" where
  "get_all_tools_loop [] tools = (Inr tools, [])"
| "get_all_tools_loop (client # rest) tools =
     (case list_tools client of
        (Inl e, client') \<Rightarrow> (Inl e, client' # rest)
      | (Inr tool_models, client') \<Rightarrow>
          (case gemini_tools tool_models tools of
             Inl e \<Rightarrow> (Inl e, client' # rest)
           | Inr tools' \<Rightarrow>
               (case get_all_tools_loop rest tools' of
                  (r, rest') \<Rightarrow> (r, client' # rest'))))"

definition get_all_tools :: "clients_dict \<Rightarrow> (py_exception + json list) \<times> clients_dict" where
  "get_all_tools clients =
     (case get_all_tools_loop (dict_values clients) [] of
        (r, vs) \<Rightarrow> (r, with_values clients vs))"

text \<open>
  \<open>_find_client_with_tool\<close> returns the first client whose listing has the name. The
  Python returns the object; here it is its position in the list.
\<close>

fun find_client_with_tool ::
  "MCPClient list \<Rightarrow> string \<Rightarrow> (py_exception + nat option) \<times> MCPClient list" where
  "find_client_with_tool [] tool_name = (Inr None, [])"
| "find_client_with_tool (client # rest) tool_name =
     (case list_tools client of
        (Inl e, client') \<Rightarrow> (Inl e, client' # rest)
      | (Inr tools, client') \<Rightarrow>
          if list_ex (\<lambda>t. t_name t = tool_name) tools then (Inr (Some 0), client' # rest)
          else (case find_client_with_tool rest tool_name of
                  (r, rest') \<Rightarrow> (map_sum id (map_option Suc) r, client' # rest')))"

record tool_result =
  tool_use_id :: string
  tr_type :: string
  tr_content :: string
  is_error :: bool

definition build_tool_result_part :: "string \<Rightarrow> string \<Rightarrow> string \<Rightarrow> tool_result" where
  "build_tool_result_part tool_use_id' text' status =
     \<lparr>tool_use_id = tool_use_id', tr_type = ''tool_result'', tr_content = text',
      is_error = (status = ''error'')\<rparr>"

text \<open>
  \<open>json.dumps\<close> with its default settings, on the two shapes the code passes to it: a
  list of strings and the dict \<open>{"error": message}\<close>. A string is quoted; the quote and
  the backslash are escaped, the control characters have their short escapes, and a
  character outside the printable ASCII range becomes a backslash, \<open>u00\<close> and two hex digits. A \<open>char\<close> is a code
  point below 256 here.
\<close>

definition hex_digit :: "nat \<Rightarrow> char" where
  "hex_digit n = ''0123456789abcdef'' ! (n mod 16)"

definition escape_char :: "char \<Rightarrow> string" where
  "escape_char c =
     (if c = CHR 0x22 then [CHR 0x5C, CHR 0x22]
      else if c = CHR 0x5C then [CHR 0x5C, CHR 0x5C]
      else if c = CHR 0x0A then [CHR 0x5C, CHR ''n'']
      else if c = CHR 0x0D then [CHR 0x5C, CHR ''r'']
      else if c = CHR 0x09 then [CHR 0x5C, CHR ''t'']
      else if c = CHR 0x08 then [CHR 0x5C, CHR ''b'']
      else if c = CHR 0x0C then [CHR 0x5C, CHR ''f'']
      else if 0x20 \<le> (of_char c :: nat) \<and> (of_char c :: nat) \<le> 0x7E then [c]
      else [CHR 0x5C, CHR ''u'', CHR ''0'', CHR ''0'',
            hex_digit ((of_char c :: nat) div 16), hex_digit (of_char c :: nat)])"

definition dumps_str :: "string \<Rightarrow> string" where
  "dumps_str s = [CHR 0x22] @ concat (map escape_char s) @ [CHR 0x22]"

fun join_comma :: "string list \<Rightarrow> string" where
  "join_comma [] = []"
| "join_comma [x] = x"
| "join_comma (x # y # ys) = x @ '', '' @ join_comma (y # ys)"

definition dumps_str_list :: "string list \<Rightarrow> string" where
  "dumps_str_list xs = ''['' @ join_comma (map dumps_str xs) @ '']''"

definition dumps_error :: "string \<Rightarrow> string" where
  "dumps_error error_message = ''{'' @ dumps_str ''error'' @ '': '' @ dumps_str error_message @ ''}''"

text \<open>\<open>str(i)\<close> of a non-negative integer: its decimal digits.\<close>

definition digit_char :: "nat \<Rightarrow> char" where
  "digit_char n = ''0123456789'' ! (n mod 10)"

function str_nat :: "nat \<Rightarrow> string" where
  "str_nat n = (if n < 10 then [digit_char n] else str_nat (n div 10) @ [digit_char n])"
  by pat_completeness auto
termination
  by (relation "measure id") auto

declare str_nat.simps [simp del]

text \<open>
  The body that the two loops \<open>_execute_gemini_function_calls\<close> and
  \<open>_execute_claude_tool_requests\<close> share, from the lookup of the client to the result
  part (the two bodies are the same text in the source). An exception of
  \<open>_find_client_with_tool\<close> is outside the \<open>try\<close> and propagates, as does one that
  \<open>except Exception\<close> does not catch.
\<close>

definition text_items :: "content_item list \<Rightarrow> string list" where
  "text_items items = concat (map (\<lambda>item. case item of TextContent t \<Rightarrow> [t] | OtherContent \<Rightarrow> []) items)"

definition error_message_of :: "string \<Rightarrow> py_exception \<Rightarrow> string" where
  "error_message_of tool_name e =
     ''Error executing tool '' @ [CHR 0x27] @ tool_name @ [CHR 0x27] @ '': '' @ str_exc e"

definition execute_request ::
  "string \<Rightarrow> string \<Rightarrow> json \<Rightarrow> clients_dict \<Rightarrow> (py_exception + tool_result) \<times> clients_dict" where
  "execute_request tool_use_id' tool_name tool_input clients =
     (case find_client_with_tool (dict_values clients) tool_name of
        (Inl e, vs) \<Rightarrow> (Inl e, with_values clients vs)
      | (Inr None, vs) \<Rightarrow>
          (Inr (build_tool_result_part tool_use_id' ''Could not find that tool'' ''error''),
           with_values clients vs)
      | (Inr (Some k), vs) \<Rightarrow>
          (case call_tool (vs ! k) tool_name tool_input of
             (Inl e, client') \<Rightarrow>
               (if is_Exception e
                then Inr (build_tool_result_part tool_use_id'
                            (dumps_error (error_message_of tool_name e)) ''error'')
                else Inl e,
                with_values clients (vs[k := client']))
           | (Inr tool_output, client') \<Rightarrow>
               (let items = (case tool_output of None \<Rightarrow> [] | Some out \<Rightarrow> r_content out);
                    content_list = text_items items;
                    content_json = dumps_str_list content_list
                in (Inr (build_tool_result_part tool_use_id' content_json
                           (if (case tool_output of None \<Rightarrow> False | Some out \<Rightarrow> r_isError out)
                            then ''error'' else ''success'')),
                    with_values clients (vs[k := client'])))))"

text \<open>Variant A: function calls without an id; the id is made from the index and the name.\<close>

record func_call =
  fc_name :: string
  fc_args :: json

definition gemini_call_id :: "nat \<Rightarrow> string \<Rightarrow> string" where
  "gemini_call_id i tool_name = ''gemini_call_'' @ str_nat i @ ''_'' @ tool_name"

fun gemini_loop ::
  "nat \<Rightarrow> func_call list \<Rightarrow> tool_result list \<Rightarrow> clients_dict
     \<Rightarrow> (py_exception + tool_result list) \<times> clients_dict" where
  "gemini_loop i [] tool_result_blocks clients = (Inr tool_result_blocks, clients)"
| "gemini_loop i (func_call # rest) tool_result_blocks clients =
     (case execute_request (gemini_call_id i (fc_name func_call)) (fc_name func_call)
             (fc_args func_call) clients of
        (Inl e, clients') \<Rightarrow> (Inl e, clients')
      | (Inr tool_result_part, clients') \<Rightarrow>
          gemini_loop (Suc i) rest (tool_result_blocks @ [tool_result_part]) clients')"

definition execute_gemini_function_calls ::
  "clients_dict \<Rightarrow> func_call list \<Rightarrow> (py_exception + tool_result list) \<times> clients_dict" where
  "execute_gemini_function_calls clients function_calls = gemini_loop 0 function_calls [] clients"

text \<open>
  Variant B: content blocks; a block whose \<open>type\<close> is \<open>"tool_use"\<close> carries \<open>id\<close>, \<open>name\<close>
  and \<open>input\<close>. \<open>b_type = None\<close> is a block without a \<open>type\<close> attribute.
\<close>

record block =
  b_type :: "string option"
  b_id :: string
  b_name :: string
  b_input :: json

fun claude_loop ::
  "block list \<Rightarrow> tool_result list \<Rightarrow> clients_dict
     \<Rightarrow> (py_exception + tool_result list) \<times> clients_dict" where
  "claude_loop [] tool_result_blocks clients = (Inr tool_result_blocks, clients)"
| "claude_loop (tool_request # rest) tool_result_blocks clients =
     (case execute_request (b_id tool_request) (b_name tool_request) (b_input tool_request)
             clients of
        (Inl e, clients') \<Rightarrow> (Inl e, clients')
      | (Inr tool_result_part, clients') \<Rightarrow>
          claude_loop rest (tool_result_blocks @ [tool_result_part]) clients')"

definition execute_claude_tool_requests ::
  "clients_dict \<Rightarrow> block list \<Rightarrow> (py_exception + tool_result list) \<times> clients_dict" where
  "execute_claude_tool_requests clients tool_requests = claude_loop tool_requests [] clients"

text \<open>
  The response of a model adapter. Each attribute may be missing (\<open>hasattr\<close> is false):
  \<open>None\<close>. \<open>resp_str\<close> is \<open>str(response)\<close>.
\<close>

record response =
  resp_text :: "string option"
  resp_function_calls :: "func_call list option"
  resp_content :: "block list option"
  resp_str :: string

text \<open>\<open>hasattr(response, 'function_calls') and response.function_calls\<close>.\<close>

definition wants_function_calls :: "response \<Rightarrow> bool" where
  "wants_function_calls r = (case resp_function_calls r of None \<Rightarrow> False | Some fcs \<Rightarrow> fcs \<noteq> [])"

definition tool_use_blocks :: "block list \<Rightarrow> block list" where
  "tool_use_blocks blocks = filter (\<lambda>b. b_type b = Some ''tool_use'') blocks"

definition execute_tool_requests ::
  "clients_dict \<Rightarrow> response \<Rightarrow> (py_exception + tool_result list) \<times> clients_dict" where
  "execute_tool_requests clients r =
     (if wants_function_calls r
      then execute_gemini_function_calls clients
             (case resp_function_calls r of None \<Rightarrow> [] | Some fcs \<Rightarrow> fcs)
      else (case resp_content r of
              Some blocks \<Rightarrow> execute_claude_tool_requests clients (tool_use_blocks blocks)
            | None \<Rightarrow> (Inr [], clients)))"

section \<open>chat.py: the conversation loop\<close>

datatype role = User | Assistant

datatype part = TextPart string | FunctionCallPart string json

datatype content = Text string | Parts "part list"

record message =
  m_role :: role
  m_content :: content

text \<open>
  \<open>Chat\<close>. The model adapter answers \<open>chat_with_tools(messages, tools)\<close> with a response
  or raises; the transcript it is given grows with every call, so a function of the
  transcript can give any sequence of answers. \<open>adapter_calls\<close> is not a field of the
  Python object: it records the transcript passed to each call of the adapter, in order.
\<close>

record Chat =
  ai_service :: "message list \<Rightarrow> json list \<Rightarrow> py_exception + response"
  chat_clients :: clients_dict
  messages :: "message list"
  adapter_calls :: "message list list"

definition process_query :: "Chat \<Rightarrow> string \<Rightarrow> Chat" where
  "process_query chat query =
     chat\<lparr>messages := messages chat @ [\<lparr>m_role = User, m_content = Text query\<rparr>]\<rparr>"

definition response_text :: "response \<Rightarrow> string" where
  "response_text r = (case resp_text r of Some t \<Rightarrow> t | None \<Rightarrow> resp_str r)"

definition add_assistant_message :: "Chat \<Rightarrow> response \<Rightarrow> Chat" where
  "add_assistant_message chat r =
     (if wants_function_calls r then
        (let content0 = (case resp_text r of
                           Some t \<Rightarrow> if t \<noteq> [] then [TextPart t] else []
                         | None \<Rightarrow> []);
             content1 = content0 @
               map (\<lambda>func_call. FunctionCallPart (fc_name func_call) (fc_args func_call))
                   (case resp_function_calls r of None \<Rightarrow> [] | Some fcs \<Rightarrow> fcs)
         in chat\<lparr>messages := messages chat @ [\<lparr>m_role = Assistant, m_content = Parts content1\<rparr>]\<rparr>)
      else
        chat\<lparr>messages := messages chat @
                [\<lparr>m_role = Assistant, m_content = Text (response_text r)\<rparr>]\<rparr>)"

definition result_line :: "tool_result \<Rightarrow> string" where
  "result_line result =
     ''- '' @ tool_use_id result @ '': '' @ (if is_error result then ''ERROR'' else ''SUCCESS'')
       @ '' - '' @ tr_content result @ [CHR 0x0A]"

definition results_header :: string where
  "results_header = ''Tool execution results:'' @ [CHR 0x0A]"

definition no_results_text :: string where
  "no_results_text = ''Tool execution completed with no results.''"

definition add_user_message :: "Chat \<Rightarrow> tool_result list \<Rightarrow> Chat" where
  "add_user_message chat tool_result_parts =
     (if tool_result_parts \<noteq> [] then
        (let result_text = results_header @ concat (map result_line tool_result_parts)
         in chat\<lparr>messages := messages chat @ [\<lparr>m_role = User, m_content = Text result_text\<rparr>]\<rparr>)
      else
        chat\<lparr>messages := messages chat @ [\<lparr>m_role = User, m_content = Text no_results_text\<rparr>]\<rparr>)"

definition max_iterations :: nat where
  "max_iterations = 5"

definition fallback_text :: string where
  "fallback_text =
     ''I encountered an issue while processing your request. Please try rephrasing your question.''"

text \<open>
  One pass through the body of the \<open>while\<close> loop of \<open>run\<close>, after the counter is
  incremented: \<open>Inr (Some text)\<close> is the \<open>break\<close> with the final text, \<open>Inr None\<close> falls
  through to the next test of the loop condition, \<open>Inl e\<close> is an exception that leaves
  \<open>run\<close>. The state is returned on every path, since the Python object keeps what was
  appended before an exception.
\<close>

definition loop_body :: "Chat \<Rightarrow> (py_exception + string option) \<times> Chat" where
  "loop_body chat =
     (case get_all_tools (chat_clients chat) of
        (Inl e, clients1) \<Rightarrow> (Inl e, chat\<lparr>chat_clients := clients1\<rparr>)
      | (Inr tools, clients1) \<Rightarrow>
          (let chat1 = chat\<lparr>chat_clients := clients1,
                           adapter_calls := adapter_calls chat @ [messages chat]\<rparr>
           in case ai_service chat (messages chat) tools of
                Inl e \<Rightarrow> (Inl e, chat1)
              | Inr r \<Rightarrow>
                  (let chat2 = add_assistant_message chat1 r
                   in if wants_function_calls r then
                        (case execute_tool_requests (chat_clients chat2) r of
                           (Inl e, clients3) \<Rightarrow> (Inl e, chat2\<lparr>chat_clients := clients3\<rparr>)
                         | (Inr tool_result_parts, clients3) \<Rightarrow>
                             (Inr None,
                              add_user_message (chat2\<lparr>chat_clients := clients3\<rparr>)
                                tool_result_parts))
                      else (Inr (Some (response_text r)), chat2))))"

text \<open>
  The \<open>while\<close> loop: the result is the value of \<open>final_text_response\<close> and of
  \<open>iteration_count\<close> when the loop is left.
\<close>

function run_loop ::
  "nat \<Rightarrow> string \<Rightarrow> Chat \<Rightarrow> (py_exception + string \<times> nat) \<times> Chat" where
  "run_loop iteration_count final_text_response chat =
     (if iteration_count < max_iterations then
        (case loop_body chat of
           (Inl e, chat') \<Rightarrow> (Inl e, chat')
         | (Inr (Some text'), chat') \<Rightarrow> (Inr (text', Suc iteration_count), chat')
         | (Inr None, chat') \<Rightarrow> run_loop (Suc iteration_count) final_text_response chat')
      else (Inr (final_text_response, iteration_count), chat))"
  by pat_completeness auto
termination
  by (relation "measure (\<lambda>(iteration_count, _, _). max_iterations - iteration_count)") auto

declare run_loop.simps [simp del]

definition run :: "Chat \<Rightarrow> string \<Rightarrow> (py_exception + string) \<times> Chat" where
  "run chat query =
     (case run_loop 0 [] (process_query chat query) of
        (Inl e, chat') \<Rightarrow> (Inl e, chat')
      | (Inr (final_text_response, iteration_count), chat') \<Rightarrow>
          (Inr (if iteration_count \<ge> max_iterations then fallback_text else final_text_response),
           chat'))"

section \<open>Predicates used in the statements\<close>

text \<open>
  A session whose server answers every listing and whose tool calls raise nothing that
  \<open>except Exception\<close> lets through; a client that is connected to such a session.
\<close>

definition session_ok :: "ClientSession \<Rightarrow> bool" where
  "session_ok s \<longleftrightarrow>
     (\<forall>h. \<exists>ts. on_list_tools s h = Inr ts) \<and>
     (\<forall>h n a e. on_call_tool s h n a = Inl e \<longrightarrow> is_Exception e)"

definition client_ok :: "MCPClient \<Rightarrow> bool" where
  "client_ok c \<longleftrightarrow> (case session_field c of None \<Rightarrow> False | Some s \<Rightarrow> session_ok s)"

definition clients_ok :: "clients_dict \<Rightarrow> bool" where
  "clients_ok clients \<longleftrightarrow> list_all client_ok (dict_values clients)"

text \<open>In addition, every listed tool has a schema that the conversion accepts.\<close>

definition catalog_ok :: "MCPClient \<Rightarrow> bool" where
  "catalog_ok c \<longleftrightarrow>
     (case session_field c of
        None \<Rightarrow> False
      | Some s \<Rightarrow> session_ok s \<and>
          (\<forall>h ts t. on_list_tools s h = Inr ts \<and> t \<in> set ts \<longrightarrow> (\<exists>g. gemini_tool t = Inr g)))"

definition catalogs_ok :: "clients_dict \<Rightarrow> bool" where
  "catalogs_ok clients \<longleftrightarrow> list_all catalog_ok (dict_values clients)"

text \<open>The tool invocations that the sessions of the clients have sent, client by client.\<close>

fun is_call :: "request \<Rightarrow> bool" where
  "is_call (CallTool _ _) = True"
| "is_call ListTools = False"

definition calls_of :: "MCPClient \<Rightarrow> request list" where
  "calls_of c = (case session_field c of None \<Rightarrow> [] | Some s \<Rightarrow> filter is_call (history s))"

definition invocations :: "clients_dict \<Rightarrow> request list list" where
  "invocations clients = map calls_of (dict_values clients)"

text \<open>
  No registered client owns the name: every client is connected and its server, asked
  now, lists no tool of that name.
\<close>

definition no_owner :: "MCPClient list \<Rightarrow> string \<Rightarrow> bool" where
  "no_owner cs tool_name \<longleftrightarrow>
     list_all (\<lambda>c. case session_field c of
                       None \<Rightarrow> False
                     | Some s \<Rightarrow> (case on_list_tools s (history s) of
                                   Inl e \<Rightarrow> False
                                 | Inr ts \<Rightarrow> \<not> list_ex (\<lambda>t. t_name t = tool_name) ts)) cs"

text \<open>
  The pairing of the transcript: an assistant message with function-call parts is
  followed at once by a user message that carries tool results, and is never last.
\<close>

fun is_function_call_part :: "part \<Rightarrow> bool" where
  "is_function_call_part (FunctionCallPart _ _) = True"
| "is_function_call_part (TextPart _) = False"

definition has_function_call_parts :: "message \<Rightarrow> bool" where
  "has_function_call_parts m \<longleftrightarrow>
     m_role m = Assistant \<and>
     (case m_content m of Parts ps \<Rightarrow> list_ex is_function_call_part ps | Text _ \<Rightarrow> False)"

definition is_tool_result_message :: "message \<Rightarrow> bool" where
  "is_tool_result_message m \<longleftrightarrow>
     m_role m = User \<and>
     (case m_content m of
        Text t \<Rightarrow> t = no_results_text \<or> prefix results_header t
      | Parts _ \<Rightarrow> False)"

fun paired :: "message list \<Rightarrow> bool" where
  "paired [] = True"
| "paired [m] = (\<not> has_function_call_parts m)"
| "paired (m # m' # ms) =
     ((if has_function_call_parts m then is_tool_result_message m' else True) \<and> paired (m' # ms))"

text \<open>
  A scripted adapter: it asks for the tool \<open>lookup\<close> while the transcript is shorter than
  \<open>n\<close> messages and answers with the plain text \<open>done\<close> from then on.
\<close>

definition lookup_call :: response where
  "lookup_call = \<lparr>resp_text = Some [], resp_function_calls = Some [\<lparr>fc_name = ''lookup'', fc_args = JDict []\<rparr>],
                  resp_content = None, resp_str = ''MockResponse''\<rparr>"

definition done_text :: response where
  "done_text = \<lparr>resp_text = Some ''done'', resp_function_calls = Some [],
                resp_content = None, resp_str = ''MockResponse''\<rparr>"

definition text_after :: "nat \<Rightarrow> message list \<Rightarrow> json list \<Rightarrow> py_exception + response" where
  "text_after n msgs tools = (if length msgs < n then Inr lookup_call else Inr done_text)"

text \<open>
  Two tool servers for the concrete checks: the first lists \<open>search\<close> and answers every
  call with the text \<open>hit\<close>; the second lists \<open>fetch\<close> and every call to it raises.
\<close>

definition search_server :: ClientSession where
  "search_server =
     \<lparr>on_list_tools = (\<lambda>h. Inr [\<lparr>t_name = ''search'', t_description = Some ''Search'',
                                     t_inputSchema = None\<rparr>]),
      on_call_tool = (\<lambda>h n a. Inr (Some \<lparr>r_content = [TextContent ''hit''], r_isError = False\<rparr>)),
      history = []\<rparr>"

definition fetch_server :: ClientSession where
  "fetch_server =
     \<lparr>on_list_tools = (\<lambda>h. Inr [\<lparr>t_name = ''fetch'', t_description = None,
                                     t_inputSchema = None\<rparr>]),
      on_call_tool = (\<lambda>h n a. Inl (OtherException ''boom'')),
      history = []\<rparr>"

definition two_clients :: clients_dict where
  "two_clients = [(''a'', \<lparr>session_field = Some search_server\<rparr>),
                  (''b'', \<lparr>session_field = Some fetch_server\<rparr>)]"

text \<open>
  What a client's server does, apart from the history: the operations of the program
  change the history only, so they keep it.
\<close>

definition behaviour_of ::
  "MCPClient \<Rightarrow> ((request list \<Rightarrow> py_exception + Tool list) \<times>
                 (request list \<Rightarrow> string \<Rightarrow> json \<Rightarrow> py_exception + CallToolResult option)) option" where
  "behaviour_of c = map_option (\<lambda>s. (on_list_tools s, on_call_tool s)) (session_field c)"

text \<open>
  The transcripts that a run may pass to the adapter: the transcript \<open>base\<close> it started
  from, followed by messages that are paired.
\<close>

definition paired_after :: "message list \<Rightarrow> message list \<Rightarrow> bool" where
  "paired_after base t \<longleftrightarrow> take (length base) t = base \<and> paired (drop (length base) t)"

text \<open>An adapter that asks for the tool \<open>lookup\<close> on every call, and a chat over the two servers.\<close>

definition always_calls :: "message list \<Rightarrow> json list \<Rightarrow> py_exception + response" where
  "always_calls msgs tools = Inr lookup_call"

definition chat_with :: "(message list \<Rightarrow> json list \<Rightarrow> py_exception + response) \<Rightarrow> Chat" where
  "chat_with adapter =
     \<lparr>ai_service = adapter, chat_clients = two_clients, messages = [], adapter_calls = []\<rparr>"

text \<open>
  A chat whose adapter answers every call with a response that carries function calls,
  over clients whose catalogs can be listed and converted.
\<close>

definition always_wants :: "Chat \<Rightarrow> bool" where
  "always_wants chat \<longleftrightarrow>
     (\<forall>msgs tools. \<exists>r. ai_service chat msgs tools = Inr r \<and> wants_function_calls r) \<and>
     catalogs_ok (chat_clients chat)"

text \<open>What \<open>list_tools\<close> of a client returns when it is called now.\<close>

definition listing :: "MCPClient \<Rightarrow> py_exception + Tool list" where
  "listing c = fst (list_tools c)"

text \<open>
  A server for the concrete check of the catalog: its first tool has a schema that is
  not a mapping, its second the example schema, its third none.
\<close>

definition schema_server :: ClientSession where
  "schema_server =
     \<lparr>on_list_tools = (\<lambda>h. Inr [\<lparr>t_name = ''loose'', t_description = Some ''about'',
                                     t_inputSchema = Some (JList [JStr ''a''])\<rparr>,
                                   \<lparr>t_name = ''typed'', t_description = None,
                                     t_inputSchema = Some example_schema\<rparr>,
                                   \<lparr>t_name = ''bare'', t_description = Some ''plain'',
                                     t_inputSchema = None\<rparr>]),
      on_call_tool = (\<lambda>h n a. Inr None),
      history = []\<rparr>"

text \<open>
  A server whose tool call is cancelled: the call raises an exception that is not an
  \<open>Exception\<close>. The clients list it first, before the \<open>search\<close> server.
\<close>

definition cancel_server :: ClientSession where
  "cancel_server =
     \<lparr>on_list_tools = (\<lambda>h. Inr [\<lparr>t_name = ''fetch'', t_description = None,
                                     t_inputSchema = None\<rparr>]),
      on_call_tool = (\<lambda>h n a. Inl (BaseOnly ''CancelledError'')),
      history = []\<rparr>"

definition cancel_clients :: clients_dict where
  "cancel_clients = [(''a'', \<lparr>session_field = Some cancel_server\<rparr>),
                     (''b'', \<lparr>session_field = Some search_server\<rparr>)]"

text \<open>
  A scripted adapter that asks for \<open>search\<close> and \<open>fetch\<close> in one response, with some
  text, while the transcript is shorter than \<open>n\<close> messages, and answers \<open>done\<close> then.
\<close>

definition search_fetch_call :: response where
  "search_fetch_call =
     \<lparr>resp_text = Some ''working'',
      resp_function_calls = Some [\<lparr>fc_name = ''search'', fc_args = JDict []\<rparr>,
                                  \<lparr>fc_name = ''fetch'', fc_args = JDict []\<rparr>],
      resp_content = None, resp_str = ''MockResponse''\<rparr>"

definition calls_then_text :: "nat \<Rightarrow> message list \<Rightarrow> json list \<Rightarrow> py_exception + response" where
  "calls_then_text n msgs tools = (if length msgs < n then Inr search_fetch_call else Inr done_text)"

section \<open>Properties of the schema conversion\<close>

lemma map_of_dict_set: "map_of (dict_set k v d) = (map_of d)(k \<mapsto> v)"
  by (induction d) (auto simp: fun_eq_iff)

lemma keys_dict_set: "fst ` set (dict_set k v d) = insert k (fst ` set d)"
  by (induction d) auto

lemma dict_set_fresh: "k \<notin> fst ` set d \<Longrightarrow> dict_set k v d = d @ [(k, v)]"
  by (induction d) auto

lemma distinct_dict_set: "distinct (map fst d) \<Longrightarrow> distinct (map fst (dict_set k v d))"
  by (induction d) (auto simp: keys_dict_set)

lemma set_dict_set: "set (dict_set k v d) \<subseteq> insert (k, v) (set d)"
  by (induction d) auto

lemma clean_prop_idem: "clean_prop (clean_prop d) = clean_prop d"
  by (simp add: clean_prop_def dict_get_def dict_has_def Let_def)

lemma cleaned_dict_set: "cleaned acc \<Longrightarrow> cleaned (dict_set k (JDict (clean_prop d)) acc)"
  unfolding cleaned_def list_all_iff using set_dict_set[of k "JDict (clean_prop d)" acc]
  by (auto simp: distinct_dict_set)

lemma cleaned_convert_properties: "cleaned acc \<Longrightarrow> cleaned (convert_properties ps acc)"
  by (induction ps acc rule: convert_properties.induct) (auto simp: cleaned_dict_set split: json.splits)

lemma convert_properties_cleaned:
  "cleaned qs \<Longrightarrow> fst ` set qs \<inter> fst ` set acc = {} \<Longrightarrow> convert_properties qs acc = acc @ qs"
proof (induction qs arbitrary: acc)
  case Nil
  then show ?case by simp
next
  case (Cons q qs)
  obtain k v where q: "q = (k, v)" by (cases q)
  from Cons.prems(1) obtain d where v: "v = JDict (clean_prop d)"
    by (auto simp: cleaned_def q)
  have cq: "cleaned qs" using Cons.prems(1) by (auto simp: cleaned_def)
  have fresh: "k \<notin> fst ` set acc" using Cons.prems(2) by (auto simp: q)
  have kq: "k \<notin> fst ` set qs" using Cons.prems(1) by (auto simp: cleaned_def q)
  have "fst ` set qs \<inter> fst ` set (acc @ [(k, v)]) = {}"
    using Cons.prems(2) kq by (auto simp: q)
  with Cons.IH[OF cq, of "acc @ [(k, v)]"] fresh show ?case
    by (simp add: q v clean_prop_idem dict_set_fresh)
qed

lemma cleaned_Nil: "cleaned []" by (simp add: cleaned_def)

lemma convert_properties_fix: "convert_properties (convert_properties ps []) [] = convert_properties ps []"
  using convert_properties_cleaned[OF cleaned_convert_properties[OF cleaned_Nil], of ps "[]"] by simp

lemma convert_dict_unfold:
  "convert_mcp_schema_to_gemini (JDict d) =
     (case map_of d ''properties'' of
        None \<Rightarrow> Inr (JDict ((''type'', dict_get d ''type'' (JStr ''object'')) # required_part d))
      | Some (JDict props) \<Rightarrow>
          Inr (JDict ((''type'', dict_get d ''type'' (JStr ''object''))
                 # (''properties'', JDict (convert_properties props [])) # required_part d))
      | Some v \<Rightarrow> Inl (no_items_attribute v))"
  by (simp add: convert_mcp_schema_to_gemini_def required_part_def split: option.splits json.splits)

lemma required_part_cons [simp]:
  "k \<noteq> ''required'' \<Longrightarrow> required_part ((k, v) # d) = required_part d"
  by (simp add: required_part_def)

lemma required_part_idem [simp]: "required_part (required_part d) = required_part d"
  by (simp add: required_part_def split: option.splits)

lemma map_of_required_part [simp]: "k \<noteq> ''required'' \<Longrightarrow> map_of (required_part d) k = None"
  by (simp add: required_part_def split: option.splits)

lemma convert_idem: "convert_mcp_schema_to_gemini (JDict d) = Inr g \<Longrightarrow> convert_mcp_schema_to_gemini g = Inr g"
proof (cases "map_of d ''properties''")
  case None
  assume "convert_mcp_schema_to_gemini (JDict d) = Inr g"
  with None have g: "g = JDict ((''type'', dict_get d ''type'' (JStr ''object'')) # required_part d)"
    by (simp add: convert_dict_unfold)
  show ?thesis
    by (simp add: g convert_dict_unfold dict_get_def)
next
  case (Some p)
  assume a: "convert_mcp_schema_to_gemini (JDict d) = Inr g"
  with Some obtain props where p: "p = JDict props"
    by (cases p) (simp_all add: convert_dict_unfold)
  from a Some p have g: "g = JDict ((''type'', dict_get d ''type'' (JStr ''object''))
                 # (''properties'', JDict (convert_properties props [])) # required_part d)"
    by (simp add: convert_dict_unfold)
  show ?thesis
    by (simp add: g convert_dict_unfold dict_get_def convert_properties_fix)
qed


lemma map_of_convert_properties:
  "distinct (map fst props) \<Longrightarrow>
   map_of (convert_properties props acc) k =
     (case map_of props k of
        Some (JDict pd) \<Rightarrow> Some (JDict (clean_prop pd))
      | _ \<Rightarrow> map_of acc k)"
proof (induction props acc rule: convert_properties.induct)
  case (1 acc)
  then show ?case by simp
next
  case (2 prop_name prop_def rest acc)
  have notin: "k = prop_name \<Longrightarrow> map_of rest k = None"
    using "2.prems" by (auto simp: map_of_eq_None_iff)
  show ?case
  proof (cases prop_def)
    case (JDict d)
    with "2.IH"(7)[OF JDict] "2.prems" notin show ?thesis
      by (auto simp: map_of_dict_set split: option.splits json.splits)
  qed (use 2 notin in \<open>auto split: option.splits json.splits\<close>)
qed

lemma map_of_clean_prop_type: "map_of (clean_prop pd) ''type'' = Some (dict_get pd ''type'' (JStr ''string''))"
  by (simp add: clean_prop_def Let_def map_of_dict_set)

lemma gemini_tools_emits:
  "gemini_tools ts acc = Inr tools \<Longrightarrow>
   \<exists>new. tools = acc @ new \<and> map gemini_tool ts = map Inr new"
proof (induction ts arbitrary: acc)
  case Nil
  then show ?case by simp
next
  case (Cons t ts)
  from Cons.prems obtain g where g: "gemini_tool t = Inr g"
    and rest: "gemini_tools ts (acc @ [g]) = Inr tools"
    by (cases "gemini_tool t") simp_all
  from Cons.IH[OF rest] obtain new where "tools = (acc @ [g]) @ new"
    and "map gemini_tool ts = map Inr new" by blast
  then show ?case by (intro exI[of _ "g # new"]) (simp add: g)
qed

lemma get_all_tools_loop_emits:
  "get_all_tools_loop cs acc = (Inr tools, cs') \<Longrightarrow>
   \<exists>lists new. map listing cs = map Inr lists \<and> tools = acc @ new \<and>
      map gemini_tool (concat lists) = map Inr new"
proof (induction cs arbitrary: acc cs')
  case Nil
  then show ?case by simp
next
  case (Cons c cs)
  obtain l c1 where lt: "list_tools c = (l, c1)" by (cases "list_tools c")
  with Cons.prems obtain ts where l: "l = Inr ts" by (cases l) simp_all
  from Cons.prems lt l obtain tools1 where gt: "gemini_tools ts acc = Inr tools1"
    by (cases "gemini_tools ts acc") simp_all
  from Cons.prems lt l gt obtain rest' where
    rec: "get_all_tools_loop cs tools1 = (Inr tools, rest')"
    by (cases "get_all_tools_loop cs tools1") simp
  from gemini_tools_emits[OF gt] obtain new1 where
    t1: "tools1 = acc @ new1" and m1: "map gemini_tool ts = map Inr new1" by blast
  from Cons.IH[OF rec] obtain lists new2 where
    ls: "map listing cs = map Inr lists" and t2: "tools = tools1 @ new2" and
    m2: "map gemini_tool (concat lists) = map Inr new2" by blast
  have lc: "listing c = Inr ts" using lt l by (simp add: listing_def)
  show ?case
    by (rule exI[of _ "ts # lists"], rule exI[of _ "new1 @ new2"])
       (simp add: lc ls t1 t2 m1 m2)
qed

lemma get_all_tools_emits:
  assumes "get_all_tools clients = (Inr tools, cl')"
  shows "\<exists>lists. map listing (dict_values clients) = map Inr lists \<and>
           map gemini_tool (concat lists) = map Inr tools"
proof -
  from assms obtain vs where "get_all_tools_loop (dict_values clients) [] = (Inr tools, vs)"
    by (cases "get_all_tools_loop (dict_values clients) []") (simp add: get_all_tools_def)
  from get_all_tools_loop_emits[OF this] show ?thesis by auto
qed

lemma gemini_tool_without_parameters:
  "t_inputSchema t = None \<or>
   (\<exists>sch. t_inputSchema t = Some sch \<and> convert_mcp_schema_to_gemini sch = Inr (JDict [])) \<Longrightarrow>
   gemini_tool t = Inr (JDict [(''name'', JStr (t_name t)),
          (''description'', (case t_description t of None \<Rightarrow> JNull | Some x \<Rightarrow> JStr x))])"
  by (auto simp: gemini_tool_def Let_def)

text \<open>
  C5. Converting the example schema returns it unchanged; converting the result of a
  conversion of a mapping returns it unchanged (idempotence); every input that is not a
  mapping converts to the empty object. \<open>get_all_tools\<close> emits one declaration per
  listed tool, in the order of the clients and of their listings, and the declaration
  of a tool whose schema converts to the empty object, like that of a tool without a
  schema, is \<open>name\<close> and \<open>description\<close> only, without \<open>parameters\<close>.
\<close>

theorem schema_conversion_example_and_idempotent:
  "convert_mcp_schema_to_gemini example_schema = Inr example_schema
   \<and> (convert_mcp_schema_to_gemini (JDict d) = Inr g \<longrightarrow> convert_mcp_schema_to_gemini g = Inr g)
   \<and> convert_mcp_schema_to_gemini JNull = Inr (JDict [])
   \<and> convert_mcp_schema_to_gemini (JBool b) = Inr (JDict [])
   \<and> convert_mcp_schema_to_gemini (JInt n) = Inr (JDict [])
   \<and> convert_mcp_schema_to_gemini (JFloat x) = Inr (JDict [])
   \<and> convert_mcp_schema_to_gemini (JStr s) = Inr (JDict [])
   \<and> convert_mcp_schema_to_gemini (JList xs) = Inr (JDict [])
   \<and> (t_inputSchema t = Some sch \<and> convert_mcp_schema_to_gemini sch = Inr (JDict []) \<longrightarrow>
        gemini_tool t = Inr (JDict [(''name'', JStr (t_name t)),
          (''description'', (case t_description t of None \<Rightarrow> JNull | Some x \<Rightarrow> JStr x))]))
   \<and> (get_all_tools clients = (Inr tools, cl') \<longrightarrow>
        (\<exists>lists. map listing (dict_values clients) = map Inr lists
           \<and> length tools = length (concat lists)
           \<and> (\<forall>i<length tools.
                 (t_inputSchema (concat lists ! i) = None \<or>
                  (\<exists>sch. t_inputSchema (concat lists ! i) = Some sch \<and>
                         convert_mcp_schema_to_gemini sch = Inr (JDict []))) \<longrightarrow>
                 tools ! i =
                   JDict [(''name'', JStr (t_name (concat lists ! i))),
                          (''description'', (case t_description (concat lists ! i) of
                                               None \<Rightarrow> JNull | Some x \<Rightarrow> JStr x))])))"
proof -
  have ex: "convert_mcp_schema_to_gemini example_schema = Inr example_schema"
    by (simp add: convert_mcp_schema_to_gemini_def example_schema_def clean_prop_def
        dict_get_def dict_has_def)
  have tool: "gemini_tool t = Inr (JDict [(''name'', JStr (t_name t)),
          (''description'', (case t_description t of None \<Rightarrow> JNull | Some x \<Rightarrow> JStr x))])"
    if "t_inputSchema t = Some sch" "convert_mcp_schema_to_gemini sch = Inr (JDict [])"
    using that by (simp add: gemini_tool_def Let_def)
  have catalog: "\<exists>lists. map listing (dict_values clients) = map Inr lists
           \<and> length tools = length (concat lists)
           \<and> (\<forall>i<length tools.
                 (t_inputSchema (concat lists ! i) = None \<or>
                  (\<exists>sch. t_inputSchema (concat lists ! i) = Some sch \<and>
                         convert_mcp_schema_to_gemini sch = Inr (JDict []))) \<longrightarrow>
                 tools ! i =
                   JDict [(''name'', JStr (t_name (concat lists ! i))),
                          (''description'', (case t_description (concat lists ! i) of
                                               None \<Rightarrow> JNull | Some x \<Rightarrow> JStr x))])"
    if g: "get_all_tools clients = (Inr tools, cl')"
  proof -
    from get_all_tools_emits[OF g] obtain lists where
      ls: "map listing (dict_values clients) = map Inr lists" and
      em: "map gemini_tool (concat lists) = map Inr tools" by blast
    have len: "length tools = length (concat lists)"
      using arg_cong[OF em, of length] by simp
    have each: "tools ! i =
                   JDict [(''name'', JStr (t_name (concat lists ! i))),
                          (''description'', (case t_description (concat lists ! i) of
                                               None \<Rightarrow> JNull | Some x \<Rightarrow> JStr x))]"
      if i: "i < length tools" and
         e: "t_inputSchema (concat lists ! i) = None \<or>
                  (\<exists>sch. t_inputSchema (concat lists ! i) = Some sch \<and>
                         convert_mcp_schema_to_gemini sch = Inr (JDict []))" for i
    proof -
      have "map gemini_tool (concat lists) ! i = map Inr tools ! i" by (simp only: em)
      with i len have "gemini_tool (concat lists ! i) = Inr (tools ! i)" by simp
      with gemini_tool_without_parameters[OF e] show ?thesis by simp
    qed
    show ?thesis
      by (rule exI[of _ lists]) (use ls len each in blast)
  qed
  show ?thesis
    using ex convert_idem[of d g] tool catalog
    by (simp add: convert_mcp_schema_to_gemini_def)
qed

theorem schema_conversion_example_and_idempotent_witness:
  "convert_mcp_schema_to_gemini example_schema = Inr example_schema
   \<and> convert_mcp_schema_to_gemini (JDict [(''properties'', JDict [(''n'', JDict [(''minimum'', JInt 0)])])])
       = Inr (JDict [(''type'', JStr ''object''), (''properties'', JDict [(''n'', JDict [(''type'', JStr ''string'')])])])
   \<and> convert_mcp_schema_to_gemini (JDict [(''type'', JStr ''object''), (''properties'', JDict [(''n'', JDict [(''type'', JStr ''string'')])])])
       = Inr (JDict [(''type'', JStr ''object''), (''properties'', JDict [(''n'', JDict [(''type'', JStr ''string'')])])])
   \<and> convert_mcp_schema_to_gemini (JList [JStr ''a'']) = Inr (JDict [])
   \<and> gemini_tool \<lparr>t_name = ''t'', t_description = Some ''about'', t_inputSchema = Some (JList [JStr ''a''])\<rparr>
       = Inr (JDict [(''name'', JStr ''t''), (''description'', JStr ''about'')])
   \<and> (\<exists>tools cl'. get_all_tools [(''s'', \<lparr>session_field = Some schema_server\<rparr>)] = (Inr tools, cl')
        \<and> tools = [JDict [(''name'', JStr ''loose''), (''description'', JStr ''about'')],
                    JDict [(''name'', JStr ''typed''), (''description'', JNull),
                           (''parameters'', example_schema)],
                    JDict [(''name'', JStr ''bare''), (''description'', JStr ''plain'')]]
        \<and> tools ! 0 = JDict [(''name'', JStr ''loose''), (''description'', JStr ''about'')])"
proof -
  let ?clients = "[(''s'', \<lparr>session_field = Some schema_server\<rparr>)]"
  let ?ts = "[\<lparr>t_name = ''loose'', t_description = Some ''about'',
                t_inputSchema = Some (JList [JStr ''a''])\<rparr>,
              \<lparr>t_name = ''typed'', t_description = None, t_inputSchema = Some example_schema\<rparr>,
              \<lparr>t_name = ''bare'', t_description = Some ''plain'', t_inputSchema = None\<rparr>]"
  have c: "convert_mcp_schema_to_gemini (JDict [(''properties'', JDict [(''n'', JDict [(''minimum'', JInt 0)])])])
       = Inr (JDict [(''type'', JStr ''object''), (''properties'', JDict [(''n'', JDict [(''type'', JStr ''string'')])])])"
    by (simp add: convert_mcp_schema_to_gemini_def clean_prop_def dict_get_def dict_has_def)
  have ex: "convert_mcp_schema_to_gemini example_schema = Inr example_schema"
    by (simp add: convert_mcp_schema_to_gemini_def example_schema_def clean_prop_def
        dict_get_def dict_has_def)
  have tr: "truthy example_schema" by (simp add: example_schema_def)
  have g1: "gemini_tool \<lparr>t_name = ''loose'', t_description = Some ''about'',
                t_inputSchema = Some (JList [JStr ''a''])\<rparr>
            = Inr (JDict [(''name'', JStr ''loose''), (''description'', JStr ''about'')])"
    by (simp add: gemini_tool_def convert_mcp_schema_to_gemini_def)
  have g2: "gemini_tool \<lparr>t_name = ''typed'', t_description = None,
                t_inputSchema = Some example_schema\<rparr>
            = Inr (JDict [(''name'', JStr ''typed''), (''description'', JNull),
                          (''parameters'', example_schema)])"
    using tr by (simp add: gemini_tool_def ex) (simp add: example_schema_def)
  have g3: "gemini_tool \<lparr>t_name = ''bare'', t_description = Some ''plain'', t_inputSchema = None\<rparr>
            = Inr (JDict [(''name'', JStr ''bare''), (''description'', JStr ''plain'')])"
    by (simp add: gemini_tool_def)
  have ev: "fst (get_all_tools ?clients) =
      Inr [JDict [(''name'', JStr ''loose''), (''description'', JStr ''about'')],
           JDict [(''name'', JStr ''typed''), (''description'', JNull),
                  (''parameters'', example_schema)],
           JDict [(''name'', JStr ''bare''), (''description'', JStr ''plain'')]]"
    by (simp add: get_all_tools_def dict_values_def list_tools_def session_def
        schema_server_def g1 g2 g3)
  obtain res cl where e: "get_all_tools ?clients = (res, cl)" by (cases "get_all_tools ?clients")
  with ev obtain tools where res: "res = Inr tools" and
    tools: "tools = [JDict [(''name'', JStr ''loose''), (''description'', JStr ''about'')],
           JDict [(''name'', JStr ''typed''), (''description'', JNull),
                  (''parameters'', example_schema)],
           JDict [(''name'', JStr ''bare''), (''description'', JStr ''plain'')]]"
    by simp
  have ls: "map listing (dict_values ?clients) = map Inr [?ts]"
    by (simp add: listing_def dict_values_def list_tools_def session_def schema_server_def)
  note t = schema_conversion_example_and_idempotent
      [of "[(''properties'', JDict [(''n'', JDict [(''minimum'', JInt 0)])])]"
          "JDict [(''type'', JStr ''object''), (''properties'', JDict [(''n'', JDict [(''type'', JStr ''string'')])])]"
          _ _ _ _ "[JStr ''a'']"
          "\<lparr>t_name = ''t'', t_description = Some ''about'', t_inputSchema = Some (JList [JStr ''a''])\<rparr>"
          "JList [JStr ''a'']" ?clients tools cl]
  from t e res obtain lists where
    l1: "map listing (dict_values ?clients) = map Inr lists" and
    l3: "\<forall>i<length tools.
                 (t_inputSchema (concat lists ! i) = None \<or>
                  (\<exists>sch. t_inputSchema (concat lists ! i) = Some sch \<and>
                         convert_mcp_schema_to_gemini sch = Inr (JDict []))) \<longrightarrow>
                 tools ! i =
                   JDict [(''name'', JStr (t_name (concat lists ! i))),
                          (''description'', (case t_description (concat lists ! i) of
                                               None \<Rightarrow> JNull | Some x \<Rightarrow> JStr x))]"
    by blast
  from l1 ls have "map Inr lists = map (Inr :: Tool list \<Rightarrow> py_exception + Tool list) [?ts]"
    by simp
  then have lists: "lists = [?ts]" by (simp only: inj_map_eq_map[OF inj_Inr])
  have "0 < length tools" by (simp add: tools)
  with l3 have "tools ! 0 = JDict [(''name'', JStr ''loose''), (''description'', JStr ''about'')]"
    by (simp add: lists convert_mcp_schema_to_gemini_def)
  with t c e res tools show ?thesis by simp
qed

text \<open>
  C10. For a mapping schema whose \<open>properties\<close> is a mapping: a property definition
  without a \<open>type\<close> key is emitted with \<open>type\<close> set to \<open>"string"\<close>, and a property
  definition that is not a mapping has no entry in the converted properties.
\<close>

theorem property_type_default_and_drop:
  assumes "map_of d ''properties'' = Some (JDict props)" and "distinct (map fst props)"
  shows "(\<exists>g. convert_mcp_schema_to_gemini (JDict d) = Inr (JDict g)
             \<and> map_of g ''properties'' = Some (JDict (convert_properties props [])))
       \<and> ((prop_name, JDict prop_def) \<in> set props \<and> map_of prop_def ''type'' = None \<longrightarrow>
             (\<exists>c. map_of (convert_properties props []) prop_name = Some (JDict c)
                \<and> map_of c ''type'' = Some (JStr ''string'')))
       \<and> ((other_name, v) \<in> set props \<and> \<not> is_dict v \<longrightarrow>
             map_of (convert_properties props []) other_name = None)"
proof (intro conjI impI)
  show "\<exists>g. convert_mcp_schema_to_gemini (JDict d) = Inr (JDict g)
           \<and> map_of g ''properties'' = Some (JDict (convert_properties props []))"
    using assms(1) by (simp add: convert_dict_unfold)
next
  assume a: "(prop_name, JDict prop_def) \<in> set props \<and> map_of prop_def ''type'' = None"
  with assms(2) have "map_of props prop_name = Some (JDict prop_def)" by simp
  then have "map_of (convert_properties props []) prop_name = Some (JDict (clean_prop prop_def))"
    by (simp add: map_of_convert_properties[OF assms(2)])
  moreover have "map_of (clean_prop prop_def) ''type'' = Some (JStr ''string'')"
    using a by (simp add: map_of_clean_prop_type dict_get_def)
  ultimately show "\<exists>c. map_of (convert_properties props []) prop_name = Some (JDict c)
              \<and> map_of c ''type'' = Some (JStr ''string'')" by blast
next
  assume a: "(other_name, v) \<in> set props \<and> \<not> is_dict v"
  with assms(2) have "map_of props other_name = Some v" by simp
  then show "map_of (convert_properties props []) other_name = None"
    using a by (cases v) (simp_all add: map_of_convert_properties[OF assms(2)])
qed

theorem property_type_default_and_drop_witness:
  "convert_mcp_schema_to_gemini
      (JDict [(''properties'', JDict [(''a'', JDict [(''description'', JStr ''x'')]),
                                      (''b'', JStr ''oops'')])])
     = Inr (JDict [(''type'', JStr ''object''),
                   (''properties'', JDict [(''a'', JDict [(''type'', JStr ''string''),
                                                          (''description'', JStr ''x'')])])])
   \<and> (\<exists>c. map_of (convert_properties [(''a'', JDict [(''description'', JStr ''x'')]),
                                         (''b'', JStr ''oops'')] []) ''a'' = Some (JDict c)
          \<and> map_of c ''type'' = Some (JStr ''string''))
   \<and> map_of (convert_properties [(''a'', JDict [(''description'', JStr ''x'')]),
                                   (''b'', JStr ''oops'')] []) ''b'' = None"
proof -
  have c: "convert_mcp_schema_to_gemini
      (JDict [(''properties'', JDict [(''a'', JDict [(''description'', JStr ''x'')]),
                                      (''b'', JStr ''oops'')])])
     = Inr (JDict [(''type'', JStr ''object''),
                   (''properties'', JDict [(''a'', JDict [(''type'', JStr ''string''),
                                                          (''description'', JStr ''x'')])])])"
    by (simp add: convert_mcp_schema_to_gemini_def clean_prop_def dict_get_def dict_has_def)
  have h1: "map_of [(''properties'', JDict [(''a'', JDict [(''description'', JStr ''x'')]),
                                          (''b'', JStr ''oops'')])] ''properties''
            = Some (JDict [(''a'', JDict [(''description'', JStr ''x'')]), (''b'', JStr ''oops'')])"
    by simp
  have h2: "distinct (map fst [(''a'', JDict [(''description'', JStr ''x'')]), (''b'', JStr ''oops'')])"
    by simp
  show ?thesis
    using c property_type_default_and_drop[OF h1 h2, of "''a''" "[(''description'', JStr ''x'')]"
        "''b''" "JStr ''oops''"]
    by simp
qed

section \<open>Properties of the client and of the tool invocation\<close>

subsection \<open>Clients\<close>

lemma list_tools_None: "session_field c = None \<Longrightarrow> list_tools c = (Inl session_not_initialized, c)"
  by (simp add: list_tools_def session_def)

lemma call_tool_None: "session_field c = None \<Longrightarrow> call_tool c n a = (Inl session_not_initialized, c)"
  by (simp add: call_tool_def session_def)

lemma list_tools_Some:
  "session_field c = Some s \<Longrightarrow>
   list_tools c = (on_list_tools s (history s),
                   c\<lparr>session_field := Some (s\<lparr>history := history s @ [ListTools]\<rparr>)\<rparr>)"
  by (simp add: list_tools_def session_def)

lemma call_tool_Some:
  "session_field c = Some s \<Longrightarrow>
   call_tool c n a = (on_call_tool s (history s) n a,
                   c\<lparr>session_field := Some (s\<lparr>history := history s @ [CallTool n a]\<rparr>)\<rparr>)"
  by (simp add: call_tool_def session_def)

lemma client_ok_list_tools:
  assumes "client_ok c"
  shows "\<exists>ts c'. list_tools c = (Inr ts, c') \<and> client_ok c'"
proof -
  from assms obtain s where s: "session_field c = Some s" and ok: "session_ok s"
    by (auto simp: client_ok_def split: option.splits)
  from ok obtain ts where ts: "on_list_tools s (history s) = Inr ts"
    unfolding session_ok_def by blast
  have "session_ok (s\<lparr>history := history s @ [ListTools]\<rparr>)"
    using ok by (simp add: session_ok_def)
  then show ?thesis
    by (simp add: list_tools_Some[OF s] ts client_ok_def)
qed

lemma client_ok_call_tool:
  assumes "client_ok c" and "call_tool c n a = (r, c')"
  shows "client_ok c' \<and> (\<forall>e. r = Inl e \<longrightarrow> is_Exception e)"
proof -
  from assms(1) obtain s where s: "session_field c = Some s" and ok: "session_ok s"
    by (auto simp: client_ok_def split: option.splits)
  have ok': "session_ok (s\<lparr>history := history s @ [CallTool n a]\<rparr>)"
    using ok by (simp add: session_ok_def)
  from assms(2) have r: "r = on_call_tool s (history s) n a"
    and c': "c' = c\<lparr>session_field := Some (s\<lparr>history := history s @ [CallTool n a]\<rparr>)\<rparr>"
    by (simp_all add: call_tool_Some[OF s])
  have "\<forall>e. r = Inl e \<longrightarrow> is_Exception e"
    using ok unfolding session_ok_def r by blast
  then show ?thesis using ok' by (simp add: c' client_ok_def)
qed

lemma catalog_ok_client_ok: "catalog_ok c \<Longrightarrow> client_ok c"
  by (auto simp: catalog_ok_def client_ok_def split: option.splits)

subsection \<open>dict values\<close>

lemma with_values_same [simp]: "with_values clients (dict_values clients) = clients"
  by (simp add: with_values_def dict_values_def zip_map_fst_snd)

lemma dict_values_with_values [simp]:
  "length vs = length clients \<Longrightarrow> dict_values (with_values clients vs) = vs"
  by (simp add: with_values_def dict_values_def)

lemma keys_with_values [simp]:
  "length vs = length clients \<Longrightarrow> map fst (with_values clients vs) = map fst clients"
  by (simp add: with_values_def)

lemma length_dict_values [simp]: "length (dict_values clients) = length clients"
  by (simp add: dict_values_def)

lemma with_values_with_values [simp]:
  "length vs = length clients \<Longrightarrow> with_values (with_values clients vs) ws = with_values clients ws"
  by (simp add: with_values_def)

subsection \<open>find\<close>

lemma find_length: "length (snd (find_client_with_tool cs n)) = length cs"
  by (induction cs) (auto split: prod.splits sum.splits)

lemma find_index: "find_client_with_tool cs n = (Inr (Some k), cs') \<Longrightarrow> k < length cs"
proof (induction cs arbitrary: k cs')
  case Nil
  then show ?case by simp
next
  case (Cons c cs)
  then show ?case
    by (auto split: prod.splits sum.splits if_splits option.splits simp: map_sum_def)
qed

lemma find_ok:
  "list_all client_ok cs \<Longrightarrow>
   \<exists>r cs'. find_client_with_tool cs n = (Inr r, cs') \<and> list_all client_ok cs'"
proof (induction cs)
  case Nil
  then show ?case by simp
next
  case (Cons c cs)
  from Cons.prems have "client_ok c" and rest: "list_all client_ok cs" by simp_all
  then obtain ts c' where lt: "list_tools c = (Inr ts, c')" and c': "client_ok c'"
    using client_ok_list_tools by blast
  from Cons.IH[OF rest] obtain r cs' where
    f: "find_client_with_tool cs n = (Inr r, cs')" and ok: "list_all client_ok cs'" by blast
  show ?case using lt c' f ok rest by auto
qed

subsection \<open>decimal strings\<close>

lemma digit_char_digits: "digit_char n \<in> set ''0123456789''"
proof -
  have "n mod 10 < length ''0123456789''" by simp
  then show ?thesis unfolding digit_char_def by (rule nth_mem)
qed

lemma digit_char_inj: "digit_char n = digit_char m \<Longrightarrow> n mod 10 = m mod 10"
proof -
  assume a: "digit_char n = digit_char m"
  have d: "distinct ''0123456789''" by simp
  have "n mod 10 < length ''0123456789''" "m mod 10 < length ''0123456789''" by simp_all
  with a d show ?thesis unfolding digit_char_def
    using nth_eq_iff_index_eq by blast
qed

lemma str_nat_small: "n < 10 \<Longrightarrow> str_nat n = [digit_char n]"
  by (subst str_nat.simps) simp

lemma str_nat_big: "\<not> n < 10 \<Longrightarrow> str_nat n = str_nat (n div 10) @ [digit_char n]"
  by (subst str_nat.simps) simp

lemma str_nat_nonempty: "str_nat n \<noteq> []"
  by (cases "n < 10") (simp_all add: str_nat_small str_nat_big)

lemma str_nat_digits: "set (str_nat n) \<subseteq> set ''0123456789''"
proof (induction n rule: str_nat.induct)
  case (1 n)
  show ?case
  proof (cases "n < 10")
    case True
    then show ?thesis using digit_char_digits[of n] by (simp add: str_nat_small)
  next
    case False
    then show ?thesis using "1.IH" digit_char_digits[of n] by (simp add: str_nat_big)
  qed
qed

lemma str_nat_no_underscore: "CHR ''_'' \<notin> set (str_nat n)"
  using str_nat_digits[of n] by auto

lemma str_nat_inj: "str_nat n = str_nat m \<Longrightarrow> n = m"
proof (induction n arbitrary: m rule: str_nat.induct)
  case (1 n)
  show ?case
  proof (cases "n < 10")
    case n: True
    show ?thesis
    proof (cases "m < 10")
      case True
      from "1.prems" have "digit_char n = digit_char m"
        unfolding str_nat_small[OF n] str_nat_small[OF True] by simp
      from digit_char_inj[OF this] n True show ?thesis by simp
    next
      case False
      from "1.prems" have "[digit_char n] = str_nat (m div 10) @ [digit_char m]"
        unfolding str_nat_small[OF n] str_nat_big[OF False] .
      then show ?thesis using str_nat_nonempty[of "m div 10"] by simp
    qed
  next
    case n: False
    show ?thesis
    proof (cases "m < 10")
      case True
      from "1.prems" have "str_nat (n div 10) @ [digit_char n] = [digit_char m]"
        unfolding str_nat_big[OF n] str_nat_small[OF True] .
      then show ?thesis using str_nat_nonempty[of "n div 10"] by simp
    next
      case False
      from "1.prems" have "str_nat (n div 10) @ [digit_char n] = str_nat (m div 10) @ [digit_char m]"
        unfolding str_nat_big[OF n] str_nat_big[OF False] .
      then have a: "str_nat (n div 10) = str_nat (m div 10)" and b: "digit_char n = digit_char m"
        by simp_all
      from "1.IH"[OF n a] digit_char_inj[OF b]
      have "n div 10 * 10 + n mod 10 = m div 10 * 10 + m mod 10" by simp
      then show ?thesis by (simp only: div_mult_mod_eq)
    qed
  qed
qed

lemma first_separator:
  "x \<notin> set xs \<Longrightarrow> x \<notin> set xs' \<Longrightarrow> xs @ x # ys = xs' @ x # ys' \<Longrightarrow> xs = xs'"
proof (induction xs arbitrary: xs')
  case Nil
  then show ?case by (cases xs') auto
next
  case (Cons a xs)
  then show ?case by (cases xs') auto
qed

lemma gemini_call_id_inj: "gemini_call_id i n = gemini_call_id j m \<Longrightarrow> i = j"
proof -
  assume "gemini_call_id i n = gemini_call_id j m"
  then have "str_nat i @ CHR ''_'' # n = str_nat j @ CHR ''_'' # m"
    by (simp add: gemini_call_id_def)
  with str_nat_no_underscore[of i] str_nat_no_underscore[of j]
  have "str_nat i = str_nat j" by (rule first_separator)
  then show ?thesis by (rule str_nat_inj)
qed

lemma distinct_map_by_fst:
  assumes "distinct (map fst ps)" and "\<And>p q. p \<in> set ps \<Longrightarrow> q \<in> set ps \<Longrightarrow> g p = g q \<Longrightarrow> fst p = fst q"
  shows "distinct (map g ps)"
proof -
  have inj: "inj_on fst (set ps)" and d: "distinct ps"
    using assms(1) by (simp_all add: distinct_map)
  have "inj_on g (set ps)"
  proof (rule inj_onI)
    fix p q assume "p \<in> set ps" "q \<in> set ps" "g p = g q"
    then have "fst p = fst q" by (rule assms(2))
    with inj \<open>p \<in> set ps\<close> \<open>q \<in> set ps\<close> show "p = q" by (simp add: inj_on_def)
  qed
  with d show ?thesis by (simp add: distinct_map)
qed

lemma gemini_ids_distinct:
  "distinct (map (\<lambda>(j, fc). gemini_call_id j (fc_name fc)) (zip [i..<i + length fcs] fcs))"
proof (rule distinct_map_by_fst)
  show "distinct (map fst (zip [i..<i + length fcs] fcs))" by simp
next
  fix p q :: "nat \<times> 'a func_call_scheme"
  assume "(case p of (j, fc) \<Rightarrow> gemini_call_id j (fc_name fc)) = (case q of (j, fc) \<Rightarrow> gemini_call_id j (fc_name fc))"
  then have "gemini_call_id (fst p) (fc_name (snd p)) = gemini_call_id (fst q) (fc_name (snd q))"
    by (simp add: case_prod_beta)
  then show "fst p = fst q" by (rule gemini_call_id_inj)
qed

subsection \<open>one request\<close>

lemma exec_propagates:
  "find_client_with_tool (dict_values clients) n = (Inl e, vs) \<Longrightarrow>
   execute_request i n a clients = (Inl e, with_values clients vs)"
  by (simp add: execute_request_def)

lemma exec_not_found:
  "find_client_with_tool (dict_values clients) n = (Inr None, vs) \<Longrightarrow>
   execute_request i n a clients =
     (Inr (build_tool_result_part i ''Could not find that tool'' ''error''), with_values clients vs)"
  by (simp add: execute_request_def)

lemma exec_raised:
  "find_client_with_tool (dict_values clients) n = (Inr (Some k), vs) \<Longrightarrow>
   call_tool (vs ! k) n a = (Inl e, c') \<Longrightarrow>
   execute_request i n a clients =
     (if is_Exception e
      then Inr (build_tool_result_part i (dumps_error (error_message_of n e)) ''error'')
      else Inl e, with_values clients (vs[k := c']))"
  by (simp add: execute_request_def)

lemma exec_returned:
  "find_client_with_tool (dict_values clients) n = (Inr (Some k), vs) \<Longrightarrow>
   call_tool (vs ! k) n a = (Inr out, c') \<Longrightarrow>
   execute_request i n a clients =
     (Inr (build_tool_result_part i
            (dumps_str_list (text_items (case out of None \<Rightarrow> [] | Some out \<Rightarrow> r_content out)))
            (if (case out of None \<Rightarrow> False | Some out \<Rightarrow> r_isError out) then ''error'' else ''success'')),
      with_values clients (vs[k := c']))"
  by (simp add: execute_request_def Let_def)

lemma build_id [simp]: "tool_use_id (build_tool_result_part i t s) = i"
  by (simp add: build_tool_result_part_def)

lemma exec_id: "execute_request i n a clients = (Inr r, cl') \<Longrightarrow> tool_use_id r = i"
  by (auto simp: execute_request_def Let_def split: prod.splits sum.splits option.splits if_splits)

lemma exec_length: "length (snd (execute_request i n a clients)) = length clients"
proof -
  have "length (snd (find_client_with_tool (dict_values clients) n)) = length clients"
    by (simp add: find_length)
  then show ?thesis
    by (auto simp: execute_request_def Let_def with_values_def split: prod.splits sum.splits option.splits)
qed

lemma exec_ok:
  assumes "clients_ok clients"
  shows "\<exists>r cl'. execute_request i n a clients = (Inr r, cl') \<and> clients_ok cl'"
proof -
  from assms have "list_all client_ok (dict_values clients)" by (simp add: clients_ok_def)
  from find_ok[OF this, of n] obtain r vs where
    f: "find_client_with_tool (dict_values clients) n = (Inr r, vs)" and ok: "list_all client_ok vs"
    by blast
  have len: "length vs = length clients" using find_length[of "dict_values clients" n] f by simp
  show ?thesis
  proof (cases r)
    case None
    with f ok len show ?thesis by (simp add: exec_not_found clients_ok_def)
  next
    case (Some k)
    with f have k: "k < length vs" using find_index[of "dict_values clients" n k vs] len by simp
    with ok have ck: "client_ok (vs ! k)" by (simp add: list_all_length)
    obtain res c' where ct: "call_tool (vs ! k) n a = (res, c')" by (cases "call_tool (vs ! k) n a")
    from client_ok_call_tool[OF ck ct] have c': "client_ok c'" and ex: "\<forall>e. res = Inl e \<longrightarrow> is_Exception e"
      by simp_all
    have ok': "list_all client_ok (vs[k := c'])"
      using ok c' set_update_subset_insert[of vs k c'] by (auto simp: list_all_iff)
    show ?thesis
    proof (cases res)
      case (Inl e)
      with ex have "is_Exception e" by simp
      with f Some ct Inl ok' len show ?thesis by (simp add: exec_raised clients_ok_def)
    next
      case (Inr out)
      with f Some ct ok' len show ?thesis by (simp add: exec_returned clients_ok_def)
    qed
  qed
qed

subsection \<open>the request cycles\<close>

lemma gemini_loop_ids:
  "gemini_loop i fcs acc clients = (Inr rs, cl') \<Longrightarrow>
   \<exists>new. rs = acc @ new \<and>
     map tool_use_id new = map (\<lambda>(j, fc). gemini_call_id j (fc_name fc)) (zip [i..<i + length fcs] fcs)"
proof (induction fcs arbitrary: i acc clients)
  case Nil
  then show ?case by simp
next
  case (Cons fc fcs)
  obtain res c1 where e: "execute_request (gemini_call_id i (fc_name fc)) (fc_name fc) (fc_args fc) clients = (res, c1)"
    by (cases "execute_request (gemini_call_id i (fc_name fc)) (fc_name fc) (fc_args fc) clients")
  with Cons.prems obtain r where r: "res = Inr r"
    and l: "gemini_loop (Suc i) fcs (acc @ [r]) c1 = (Inr rs, cl')"
    by (cases res) auto
  from Cons.IH[OF l] obtain new where rs: "rs = (acc @ [r]) @ new" and
    ids: "map tool_use_id new = map (\<lambda>(j, fc). gemini_call_id j (fc_name fc)) (zip [Suc i..<Suc i + length fcs] fcs)"
    by blast
  have id: "tool_use_id r = gemini_call_id i (fc_name fc)" using exec_id e r by blast
  have "[i..<i + length (fc # fcs)] = i # [Suc i..<i + length (fc # fcs)]"
    by (rule upt_conv_Cons) simp
  then have up: "[i..<i + length (fc # fcs)] = i # [Suc i..<Suc i + length fcs]"
    by simp
  show ?case
    unfolding up by (rule exI[of _ "r # new"]) (simp add: rs ids id)
qed

lemma claude_loop_ids:
  "claude_loop reqs acc clients = (Inr rs, cl') \<Longrightarrow>
   \<exists>new. rs = acc @ new \<and> map tool_use_id new = map b_id reqs"
proof (induction reqs arbitrary: acc clients)
  case Nil
  then show ?case by simp
next
  case (Cons b reqs)
  obtain res c1 where e: "execute_request (b_id b) (b_name b) (b_input b) clients = (res, c1)"
    by (cases "execute_request (b_id b) (b_name b) (b_input b) clients")
  with Cons.prems obtain r where r: "res = Inr r"
    and l: "claude_loop reqs (acc @ [r]) c1 = (Inr rs, cl')"
    by (cases res) auto
  from Cons.IH[OF l] obtain new where rs: "rs = (acc @ [r]) @ new" and
    ids: "map tool_use_id new = map b_id reqs"
    by blast
  have id: "tool_use_id r = b_id b" using exec_id e r by blast
  show ?case
    by (rule exI[of _ "r # new"]) (simp add: rs ids id)
qed

lemma gemini_loop_ok:
  "clients_ok clients \<Longrightarrow> \<exists>rs cl'. gemini_loop i fcs acc clients = (Inr rs, cl') \<and> clients_ok cl'"
proof (induction fcs arbitrary: i acc clients)
  case Nil
  then show ?case by simp
next
  case (Cons fc fcs)
  from exec_ok[OF Cons.prems] obtain r c1 where
    e: "execute_request (gemini_call_id i (fc_name fc)) (fc_name fc) (fc_args fc) clients = (Inr r, c1)"
    and ok: "clients_ok c1" by blast
  from Cons.IH[OF ok, of "Suc i" "acc @ [r]"] e show ?case by simp
qed

lemma claude_loop_ok:
  "clients_ok clients \<Longrightarrow> \<exists>rs cl'. claude_loop reqs acc clients = (Inr rs, cl') \<and> clients_ok cl'"
proof (induction reqs arbitrary: acc clients)
  case Nil
  then show ?case by simp
next
  case (Cons b reqs)
  from exec_ok[OF Cons.prems] obtain r c1 where
    e: "execute_request (b_id b) (b_name b) (b_input b) clients = (Inr r, c1)"
    and ok: "clients_ok c1" by blast
  from Cons.IH[OF ok, of "acc @ [r]"] e show ?case by simp
qed

lemma gemini_ids_of:
  assumes "execute_gemini_function_calls clients fcs = (Inr rs, cl')"
  shows "map tool_use_id rs = map (\<lambda>(j, fc). gemini_call_id j (fc_name fc)) (zip [0..<length fcs] fcs)"
  using gemini_loop_ids[of 0 fcs "[]" clients rs cl'] assms
  by (simp add: execute_gemini_function_calls_def)

lemma claude_ids_of:
  assumes "execute_claude_tool_requests clients reqs = (Inr rs, cl')"
  shows "map tool_use_id rs = map b_id reqs"
  using claude_loop_ids[of reqs "[]" clients rs cl'] assms
  by (simp add: execute_claude_tool_requests_def)

lemma calls_of_list_tools: "calls_of (snd (list_tools c)) = calls_of c"
  by (cases "session_field c") (simp_all add: list_tools_None list_tools_Some calls_of_def)

lemma find_calls: "map calls_of (snd (find_client_with_tool cs n)) = map calls_of cs"
proof (induction cs)
  case Nil
  then show ?case by simp
next
  case (Cons c cs)
  obtain r c' where lt: "list_tools c = (r, c')" by (cases "list_tools c")
  then have c': "calls_of c' = calls_of c" using calls_of_list_tools[of c] by simp
  show ?case using Cons.IH lt c'
    by (auto split: sum.splits prod.splits)
qed

lemma find_no_owner: "no_owner cs n \<Longrightarrow> fst (find_client_with_tool cs n) = Inr None"
proof (induction cs)
  case Nil
  then show ?case by simp
next
  case (Cons c cs)
  from Cons.prems obtain s ts where s: "session_field c = Some s"
    and ts: "on_list_tools s (history s) = Inr ts" and no: "\<not> list_ex (\<lambda>t. t_name t = n) ts"
    and rest: "no_owner cs n"
    by (auto simp: no_owner_def split: option.splits sum.splits)
  from Cons.IH[OF rest] obtain cs' where "find_client_with_tool cs n = (Inr None, cs')"
    by (cases "find_client_with_tool cs n") simp
  then show ?case
    by (simp add: list_tools_Some[OF s] ts no)
qed

lemma invocations_with_values:
  "length vs = length clients \<Longrightarrow> invocations (with_values clients vs) = map calls_of vs"
  by (simp add: invocations_def)

lemma exec_no_owner:
  assumes "no_owner (dict_values clients) n"
  shows "fst (execute_request i n a clients) = Inr (build_tool_result_part i ''Could not find that tool'' ''error'')"
    and "invocations (snd (execute_request i n a clients)) = invocations clients"
proof -
  obtain vs where f: "find_client_with_tool (dict_values clients) n = (Inr None, vs)"
    using find_no_owner[OF assms] by (cases "find_client_with_tool (dict_values clients) n") simp
  have len: "length vs = length clients" using find_length[of "dict_values clients" n] f by simp
  have calls: "map calls_of vs = map calls_of (dict_values clients)"
    using find_calls[of "dict_values clients" n] f by simp
  show "fst (execute_request i n a clients) = Inr (build_tool_result_part i ''Could not find that tool'' ''error'')"
    by (simp add: exec_not_found[OF f])
  show "invocations (snd (execute_request i n a clients)) = invocations clients"
    by (simp add: exec_not_found[OF f] invocations_with_values[OF len] calls) (simp add: invocations_def)
qed

text \<open>
  C6. When no registered client lists the requested tool name, the request produces
  the one result with \<open>is_error\<close> set and the content \<open>Could not find that tool\<close>, no
  session sends a tool call, and both cycles append that result and go on with the
  remaining requests.
\<close>

theorem unknown_tool_yields_error_result:
  assumes "no_owner (dict_values clients) tool_name"
  shows "fst (execute_request tid tool_name tool_input clients) =
           Inr \<lparr>tool_use_id = tid, tr_type = ''tool_result'',
                tr_content = ''Could not find that tool'', is_error = True\<rparr>
       \<and> invocations (snd (execute_request tid tool_name tool_input clients)) = invocations clients
       \<and> gemini_loop i (\<lparr>fc_name = tool_name, fc_args = tool_input\<rparr> # rest) blocks clients =
           gemini_loop (Suc i) rest
             (blocks @ [\<lparr>tool_use_id = gemini_call_id i tool_name, tr_type = ''tool_result'',
                         tr_content = ''Could not find that tool'', is_error = True\<rparr>])
             (snd (execute_request (gemini_call_id i tool_name) tool_name tool_input clients))
       \<and> claude_loop (\<lparr>b_type = Some ''tool_use'', b_id = tid, b_name = tool_name,
                        b_input = tool_input\<rparr> # rest') blocks clients =
           claude_loop rest'
             (blocks @ [\<lparr>tool_use_id = tid, tr_type = ''tool_result'',
                         tr_content = ''Could not find that tool'', is_error = True\<rparr>])
             (snd (execute_request tid tool_name tool_input clients))"
proof -
  have b: "\<And>x. build_tool_result_part x ''Could not find that tool'' ''error'' =
      \<lparr>tool_use_id = x, tr_type = ''tool_result'', tr_content = ''Could not find that tool'', is_error = True\<rparr>"
    by (simp add: build_tool_result_part_def)
  have e: "\<exists>cl. execute_request x tool_name tool_input clients =
      (Inr \<lparr>tool_use_id = x, tr_type = ''tool_result'', tr_content = ''Could not find that tool'', is_error = True\<rparr>, cl)" for x
    using exec_no_owner(1)[OF assms, of x tool_input]
    by (cases "execute_request x tool_name tool_input clients") (simp add: b)
  from e[of tid] obtain cl1 where e1: "execute_request tid tool_name tool_input clients =
      (Inr \<lparr>tool_use_id = tid, tr_type = ''tool_result'', tr_content = ''Could not find that tool'', is_error = True\<rparr>, cl1)"
    by blast
  from e[of "gemini_call_id i tool_name"] obtain cl2 where
    e2: "execute_request (gemini_call_id i tool_name) tool_name tool_input clients =
      (Inr \<lparr>tool_use_id = gemini_call_id i tool_name, tr_type = ''tool_result'',
            tr_content = ''Could not find that tool'', is_error = True\<rparr>, cl2)"
    by blast
  show ?thesis
    using exec_no_owner(2)[OF assms, of tid tool_input]
    by (simp add: e1 e2)
qed

lemmas eval_defs = execute_gemini_function_calls_def execute_claude_tool_requests_def
  execute_request_def two_clients_def
  search_server_def fetch_server_def dict_values_def with_values_def list_tools_def call_tool_def
  session_def build_tool_result_part_def gemini_call_id_def str_nat_small digit_char_def
  dumps_error_def dumps_str_list_def dumps_str_def escape_char_def error_message_of_def
  text_items_def Let_def

lemma two_clients_ok: "clients_ok two_clients"
  by (simp add: clients_ok_def client_ok_def session_ok_def two_clients_def dict_values_def
      search_server_def fetch_server_def)

lemma ev3: "fst (execute_gemini_function_calls two_clients
   [\<lparr>fc_name = ''search'', fc_args = JDict []\<rparr>, \<lparr>fc_name = ''fetch'', fc_args = JDict []\<rparr>,
    \<lparr>fc_name = ''unknown'', fc_args = JDict []\<rparr>]) =
   Inr [\<lparr>tool_use_id = ''gemini_call_0_search'', tr_type = ''tool_result'',
         tr_content = [CHR ''['', CHR 0x22, CHR ''h'', CHR ''i'', CHR ''t'', CHR 0x22, CHR '']''],
         is_error = False\<rparr>,
        \<lparr>tool_use_id = ''gemini_call_1_fetch'', tr_type = ''tool_result'',
         tr_content = ''{'' @ [CHR 0x22] @ ''error'' @ [CHR 0x22] @ '': '' @ [CHR 0x22]
            @ ''Error executing tool '' @ [CHR 0x27] @ ''fetch'' @ [CHR 0x27] @ '': boom''
            @ [CHR 0x22] @ ''}'',
         is_error = True\<rparr>,
        \<lparr>tool_use_id = ''gemini_call_2_unknown'', tr_type = ''tool_result'',
         tr_content = ''Could not find that tool'', is_error = True\<rparr>]"
  by (simp add: eval_defs)


lemma gemini_length:
  assumes "execute_gemini_function_calls clients fcs = (Inr rs, cl')"
  shows "length rs = length fcs"
  using arg_cong[OF gemini_ids_of[OF assms], of length] by simp

lemma claude_length:
  assumes "execute_claude_tool_requests clients reqs = (Inr rs, cl')"
  shows "length rs = length reqs"
  using arg_cong[OF claude_ids_of[OF assms], of length] by simp

lemma gemini_nth_id:
  assumes "execute_gemini_function_calls clients fcs = (Inr rs, cl')" and "i < length fcs"
  shows "tool_use_id (rs ! i) = gemini_call_id i (fc_name (fcs ! i))"
proof -
  have "tool_use_id (rs ! i) = map tool_use_id rs ! i"
    using assms(2) gemini_length[OF assms(1)] by simp
  also have "\<dots> = map (\<lambda>(j, fc). gemini_call_id j (fc_name fc)) (zip [0..<length fcs] fcs) ! i"
    by (simp only: gemini_ids_of[OF assms(1)])
  also have "\<dots> = gemini_call_id i (fc_name (fcs ! i))"
    using assms(2) by simp
  finally show ?thesis .
qed

lemma claude_nth_id:
  assumes "execute_claude_tool_requests clients reqs = (Inr rs, cl')" and "i < length reqs"
  shows "tool_use_id (rs ! i) = b_id (reqs ! i)"
proof -
  have "tool_use_id (rs ! i) = map tool_use_id rs ! i"
    using assms(2) claude_length[OF assms(1)] by simp
  also have "\<dots> = map b_id reqs ! i"
    by (simp only: claude_ids_of[OF assms(1)])
  also have "\<dots> = b_id (reqs ! i)"
    using assms(2) by simp
  finally show ?thesis .
qed

lemma execute_tool_requests_ok:
  assumes "clients_ok clients"
  shows "\<exists>rs cl'. execute_tool_requests clients r = (Inr rs, cl')"
proof (cases "wants_function_calls r")
  case True
  then show ?thesis
    using gemini_loop_ok[OF assms, of 0 _ "[]"]
    by (simp add: execute_tool_requests_def execute_gemini_function_calls_def) blast
next
  case False
  then show ?thesis
    using claude_loop_ok[OF assms, of _ "[]"]
    by (cases "resp_content r")
       (simp_all add: execute_tool_requests_def execute_claude_tool_requests_def, blast)
qed

text \<open>
  C3. When \<open>execute_tool_requests\<close> returns, it returns one result per request, in
  the order of the requests, and the i-th result carries the id of the i-th request:
  the synthesized id for a function call, the block's own id for a tool-use block.
  The requests of a response with function calls are those calls; the requests of a
  response without them and with content blocks are the blocks whose type is
  \<open>tool_use\<close>, in the order of the content; a response with neither yields the empty
  list. With clients that answer their listings it returns.
\<close>

theorem one_result_per_request_in_order:
  "(execute_gemini_function_calls clients fcs = (Inr rs, cl') \<longrightarrow>
      length rs = length fcs \<and>
      (\<forall>i<length fcs. tool_use_id (rs ! i) = gemini_call_id i (fc_name (fcs ! i))))
   \<and> (execute_claude_tool_requests clients reqs = (Inr rs', cl'') \<longrightarrow>
      length rs' = length reqs \<and>
      (\<forall>i<length reqs. tool_use_id (rs' ! i) = b_id (reqs ! i)))
   \<and> (resp_function_calls r = Some fcs \<and> fcs \<noteq> [] \<longrightarrow>
      execute_tool_requests clients r = execute_gemini_function_calls clients fcs)
   \<and> ((resp_function_calls r = None \<or> resp_function_calls r = Some []) \<and>
       resp_content r = Some blocks \<longrightarrow>
      execute_tool_requests clients r =
        execute_claude_tool_requests clients (filter (\<lambda>b. b_type b = Some ''tool_use'') blocks))
   \<and> ((resp_function_calls r = None \<or> resp_function_calls r = Some []) \<and>
       resp_content r = None \<longrightarrow>
      execute_tool_requests clients r = (Inr [], clients))
   \<and> (resp_function_calls r = Some fcs \<and> fcs \<noteq> [] \<and>
       execute_tool_requests clients r = (Inr rsA, clA) \<longrightarrow>
      length rsA = length fcs \<and>
      (\<forall>i<length fcs. tool_use_id (rsA ! i) = gemini_call_id i (fc_name (fcs ! i))))
   \<and> ((resp_function_calls r = None \<or> resp_function_calls r = Some []) \<and>
       resp_content r = Some blocks \<and>
       execute_tool_requests clients r = (Inr rsB, clB) \<longrightarrow>
      length rsB = length (filter (\<lambda>b. b_type b = Some ''tool_use'') blocks) \<and>
      map tool_use_id rsB = map b_id (filter (\<lambda>b. b_type b = Some ''tool_use'') blocks))
   \<and> (clients_ok clients \<longrightarrow> (\<exists>rs cl'. execute_tool_requests clients r = (Inr rs, cl')))"
proof (intro conjI impI)
  assume a: "execute_gemini_function_calls clients fcs = (Inr rs, cl')"
  show "length rs = length fcs" by (rule gemini_length[OF a])
  show "\<forall>i<length fcs. tool_use_id (rs ! i) = gemini_call_id i (fc_name (fcs ! i))"
    using gemini_nth_id[OF a] by blast
next
  assume a: "execute_claude_tool_requests clients reqs = (Inr rs', cl'')"
  show "length rs' = length reqs" by (rule claude_length[OF a])
  show "\<forall>i<length reqs. tool_use_id (rs' ! i) = b_id (reqs ! i)"
    using claude_nth_id[OF a] by blast
next
  assume "resp_function_calls r = Some fcs \<and> fcs \<noteq> []"
  then show "execute_tool_requests clients r = execute_gemini_function_calls clients fcs"
    by (simp add: execute_tool_requests_def wants_function_calls_def)
next
  assume "(resp_function_calls r = None \<or> resp_function_calls r = Some []) \<and>
       resp_content r = Some blocks"
  then show "execute_tool_requests clients r =
        execute_claude_tool_requests clients (filter (\<lambda>b. b_type b = Some ''tool_use'') blocks)"
    by (auto simp: execute_tool_requests_def wants_function_calls_def tool_use_blocks_def)
next
  assume "(resp_function_calls r = None \<or> resp_function_calls r = Some []) \<and>
       resp_content r = None"
  then show "execute_tool_requests clients r = (Inr [], clients)"
    by (auto simp: execute_tool_requests_def wants_function_calls_def)
next
  assume a: "resp_function_calls r = Some fcs \<and> fcs \<noteq> [] \<and>
       execute_tool_requests clients r = (Inr rsA, clA)"
  then have g: "execute_gemini_function_calls clients fcs = (Inr rsA, clA)"
    by (auto simp: execute_tool_requests_def wants_function_calls_def)
  show "length rsA = length fcs" by (rule gemini_length[OF g])
  show "\<forall>i<length fcs. tool_use_id (rsA ! i) = gemini_call_id i (fc_name (fcs ! i))"
    using gemini_nth_id[OF g] by blast
next
  assume a: "(resp_function_calls r = None \<or> resp_function_calls r = Some []) \<and>
       resp_content r = Some blocks \<and>
       execute_tool_requests clients r = (Inr rsB, clB)"
  then have c: "execute_claude_tool_requests clients
                   (filter (\<lambda>b. b_type b = Some ''tool_use'') blocks) = (Inr rsB, clB)"
    by (auto simp: execute_tool_requests_def wants_function_calls_def tool_use_blocks_def)
  show "length rsB = length (filter (\<lambda>b. b_type b = Some ''tool_use'') blocks)"
    by (rule claude_length[OF c])
  show "map tool_use_id rsB = map b_id (filter (\<lambda>b. b_type b = Some ''tool_use'') blocks)"
    by (rule claude_ids_of[OF c])
next
  assume "clients_ok clients"
  then show "\<exists>rs cl'. execute_tool_requests clients r = (Inr rs, cl')"
    by (rule execute_tool_requests_ok)
qed

theorem one_result_per_request_in_order_witness:
  "(\<exists>rs cl'. execute_tool_requests two_clients
       \<lparr>resp_text = Some [], resp_function_calls =
          Some [\<lparr>fc_name = ''search'', fc_args = JDict []\<rparr>,
                \<lparr>fc_name = ''fetch'', fc_args = JDict []\<rparr>,
                \<lparr>fc_name = ''unknown'', fc_args = JDict []\<rparr>],
        resp_content = None, resp_str = []\<rparr> = (Inr rs, cl')
     \<and> length rs = 3
     \<and> map tool_use_id rs = [''gemini_call_0_search'', ''gemini_call_1_fetch'', ''gemini_call_2_unknown'']
     \<and> tool_use_id (rs ! 1) = gemini_call_id 1 ''fetch'')
   \<and> (\<exists>rs cl'. execute_tool_requests two_clients
       \<lparr>resp_text = Some ''calling'', resp_function_calls = None,
        resp_content =
          Some [\<lparr>b_type = Some ''text'', b_id = [], b_name = [], b_input = JNull\<rparr>,
                \<lparr>b_type = Some ''tool_use'', b_id = ''toolu_02'', b_name = ''unknown'',
                 b_input = JDict []\<rparr>,
                \<lparr>b_type = None, b_id = ''x'', b_name = ''search'', b_input = JDict []\<rparr>,
                \<lparr>b_type = Some ''tool_use'', b_id = ''toolu_01'', b_name = ''search'',
                 b_input = JDict []\<rparr>],
        resp_str = []\<rparr> = (Inr rs, cl')
     \<and> length rs = 2
     \<and> map tool_use_id rs = [''toolu_02'', ''toolu_01'']
     \<and> map tr_content rs = [''Could not find that tool'',
                              [CHR ''['', CHR 0x22, CHR ''h'', CHR ''i'', CHR ''t'', CHR 0x22, CHR '']'']]
     \<and> map is_error rs = [True, False])"
proof
  let ?fcs = "[\<lparr>fc_name = ''search'', fc_args = JDict []\<rparr>,
                \<lparr>fc_name = ''fetch'', fc_args = JDict []\<rparr>,
                \<lparr>fc_name = ''unknown'', fc_args = JDict []\<rparr>]"
  let ?r = "\<lparr>resp_text = Some [], resp_function_calls = Some ?fcs,
        resp_content = None, resp_str = []\<rparr>"
  obtain res cl where e: "execute_gemini_function_calls two_clients ?fcs = (res, cl)"
    by (cases "execute_gemini_function_calls two_clients ?fcs")
  from ev3 e obtain rs where res: "res = Inr rs"
    and ids: "map tool_use_id rs = [''gemini_call_0_search'', ''gemini_call_1_fetch'', ''gemini_call_2_unknown'']"
    by simp
  note t = one_result_per_request_in_order[of two_clients ?fcs rs cl _ _ _ ?r]
  from t e res have len: "length rs = length ?fcs"
    and nth: "\<forall>i<length ?fcs. tool_use_id (rs ! i) = gemini_call_id i (fc_name (?fcs ! i))"
    and disp: "execute_tool_requests two_clients ?r = execute_gemini_function_calls two_clients ?fcs"
    by simp_all
  from nth have "tool_use_id (rs ! 1) = gemini_call_id 1 ''fetch''" by simp
  with len ids disp e res show "\<exists>rs cl'. execute_tool_requests two_clients ?r = (Inr rs, cl')
     \<and> length rs = 3
     \<and> map tool_use_id rs = [''gemini_call_0_search'', ''gemini_call_1_fetch'', ''gemini_call_2_unknown'']
     \<and> tool_use_id (rs ! 1) = gemini_call_id 1 ''fetch''" by simp
next
  let ?blocks = "[\<lparr>b_type = Some ''text'', b_id = [], b_name = [], b_input = JNull\<rparr>,
                \<lparr>b_type = Some ''tool_use'', b_id = ''toolu_02'', b_name = ''unknown'',
                 b_input = JDict []\<rparr>,
                \<lparr>b_type = None, b_id = ''x'', b_name = ''search'', b_input = JDict []\<rparr>,
                \<lparr>b_type = Some ''tool_use'', b_id = ''toolu_01'', b_name = ''search'',
                 b_input = JDict []\<rparr>]"
  let ?r = "\<lparr>resp_text = Some ''calling'', resp_function_calls = None,
        resp_content = Some ?blocks, resp_str = []\<rparr>"
  have ev: "fst (execute_tool_requests two_clients ?r) =
      Inr [\<lparr>tool_use_id = ''toolu_02'', tr_type = ''tool_result'',
            tr_content = ''Could not find that tool'', is_error = True\<rparr>,
           \<lparr>tool_use_id = ''toolu_01'', tr_type = ''tool_result'',
            tr_content = [CHR ''['', CHR 0x22, CHR ''h'', CHR ''i'', CHR ''t'', CHR 0x22, CHR '']''],
            is_error = False\<rparr>]"
    by (simp add: execute_tool_requests_def wants_function_calls_def tool_use_blocks_def eval_defs)
  obtain res cl where e: "execute_tool_requests two_clients ?r = (res, cl)"
    by (cases "execute_tool_requests two_clients ?r")
  from ev e obtain rs where res: "res = Inr rs"
    and c: "map tr_content rs = [''Could not find that tool'',
                              [CHR ''['', CHR 0x22, CHR ''h'', CHR ''i'', CHR ''t'', CHR 0x22, CHR '']'']]"
    and er: "map is_error rs = [True, False]"
    by simp
  note t = one_result_per_request_in_order[of two_clients _ _ _ _ _ _ ?r ?blocks _ _ rs cl]
  from t e res have "length rs = length (filter (\<lambda>b. b_type b = Some ''tool_use'') ?blocks) \<and>
      map tool_use_id rs = map b_id (filter (\<lambda>b. b_type b = Some ''tool_use'') ?blocks)"
    by simp
  then have "length rs = 2" and "map tool_use_id rs = [''toolu_02'', ''toolu_01'']" by simp_all
  with c er e res show "\<exists>rs cl'. execute_tool_requests two_clients ?r = (Inr rs, cl')
     \<and> length rs = 2
     \<and> map tool_use_id rs = [''toolu_02'', ''toolu_01'']
     \<and> map tr_content rs = [''Could not find that tool'',
                              [CHR ''['', CHR 0x22, CHR ''h'', CHR ''i'', CHR ''t'', CHR 0x22, CHR '']'']]
     \<and> map is_error rs = [True, False]" by simp
qed

text \<open>
  C4. The id of the i-th result of a function-call batch is \<open>gemini_call_\<close>, the
  decimal index, an underscore and the tool name; the ids of one batch are pairwise
  different, and any other run of the same ordered batch, with whatever clients, gives
  the same ids. The id of a tool-use result is the \<open>id\<close> field of its request.
\<close>

theorem synthesized_ids_deterministic_and_unique:
  "(execute_gemini_function_calls clients fcs = (Inr rs, cl') \<longrightarrow>
      map tool_use_id rs =
        map (\<lambda>(i, fc). ''gemini_call_'' @ str_nat i @ ''_'' @ fc_name fc) (zip [0..<length fcs] fcs)
      \<and> distinct (map tool_use_id rs)
      \<and> (\<forall>clients2 rs2 cl2. execute_gemini_function_calls clients2 fcs = (Inr rs2, cl2) \<longrightarrow>
            map tool_use_id rs2 = map tool_use_id rs))
   \<and> (execute_claude_tool_requests clients reqs = (Inr rs', cl'') \<longrightarrow>
      map tool_use_id rs' = map b_id reqs)
   \<and> (clients_ok clients \<longrightarrow>
        (\<exists>rs cl'. execute_gemini_function_calls clients fcs = (Inr rs, cl')) \<and>
        (\<exists>rs cl'. execute_claude_tool_requests clients reqs = (Inr rs, cl')))"
proof (intro conjI impI allI)
  assume a: "execute_gemini_function_calls clients fcs = (Inr rs, cl')"
  have ids: "map tool_use_id rs =
      map (\<lambda>(j, fc). gemini_call_id j (fc_name fc)) (zip [0..<length fcs] fcs)"
    by (rule gemini_ids_of[OF a])
  then show "map tool_use_id rs =
        map (\<lambda>(i, fc). ''gemini_call_'' @ str_nat i @ ''_'' @ fc_name fc) (zip [0..<length fcs] fcs)"
    by (simp add: gemini_call_id_def)
  show "distinct (map tool_use_id rs)"
    using gemini_ids_distinct[of 0 fcs] by (simp add: ids)
  fix clients2 rs2 cl2
  assume "execute_gemini_function_calls clients2 fcs = (Inr rs2, cl2)"
  from gemini_ids_of[OF this] show "map tool_use_id rs2 = map tool_use_id rs"
    by (simp add: ids)
next
  assume "execute_claude_tool_requests clients reqs = (Inr rs', cl'')"
  then show "map tool_use_id rs' = map b_id reqs" by (rule claude_ids_of)
next
  assume ok: "clients_ok clients"
  show "\<exists>rs cl'. execute_gemini_function_calls clients fcs = (Inr rs, cl')"
    using gemini_loop_ok[OF ok, of 0 fcs "[]"] by (auto simp: execute_gemini_function_calls_def)
  show "\<exists>rs cl'. execute_claude_tool_requests clients reqs = (Inr rs, cl')"
    using claude_loop_ok[OF ok, of reqs "[]"] by (auto simp: execute_claude_tool_requests_def)
qed

theorem synthesized_ids_deterministic_and_unique_witness:
  "\<exists>rs cl' rs' cl''.
     execute_gemini_function_calls two_clients
       [\<lparr>fc_name = ''search'', fc_args = JDict []\<rparr>, \<lparr>fc_name = ''search'', fc_args = JDict []\<rparr>]
       = (Inr rs, cl')
     \<and> map tool_use_id rs = [''gemini_call_0_search'', ''gemini_call_1_search'']
     \<and> distinct (map tool_use_id rs)
     \<and> execute_claude_tool_requests two_clients
         [\<lparr>b_type = Some ''tool_use'', b_id = ''toolu_01'', b_name = ''search'', b_input = JDict []\<rparr>]
       = (Inr rs', cl'')
     \<and> map tool_use_id rs' = [''toolu_01'']"
proof -
  let ?fcs = "[\<lparr>fc_name = ''search'', fc_args = JDict []\<rparr>, \<lparr>fc_name = ''search'', fc_args = JDict []\<rparr>]"
  let ?reqs = "[\<lparr>b_type = Some ''tool_use'', b_id = ''toolu_01'', b_name = ''search'', b_input = JDict []\<rparr>]"
  note t = synthesized_ids_deterministic_and_unique[of two_clients ?fcs _ _ ?reqs]
  from t two_clients_ok obtain rs cl' where
    e: "execute_gemini_function_calls two_clients ?fcs = (Inr rs, cl')" by blast
  from t two_clients_ok obtain rs' cl'' where
    e': "execute_claude_tool_requests two_clients ?reqs = (Inr rs', cl'')" by blast
  from t[of rs cl' rs' cl''] e have c1: "map tool_use_id rs =
        map (\<lambda>(i, fc). ''gemini_call_'' @ str_nat i @ ''_'' @ fc_name fc) (zip [0..<length ?fcs] ?fcs)
      \<and> distinct (map tool_use_id rs)"
    by blast
  from t[of rs cl' rs' cl''] e' have ids': "map tool_use_id rs' = map b_id ?reqs"
    by blast
  note ids = c1[THEN conjunct1] and d = c1[THEN conjunct2]
  have up: "[0..<length ?fcs] = [0, 1]" by (simp add: upt_rec)
  from ids have i1: "map tool_use_id rs = [''gemini_call_0_search'', ''gemini_call_1_search'']"
    unfolding up by (simp add: str_nat_small digit_char_def)
  have i2: "map tool_use_id rs' = [''toolu_01'']" using ids' by simp
  show ?thesis
    by (rule exI[of _ rs], rule exI[of _ cl'], rule exI[of _ rs'], rule exI[of _ cl''])
       (simp only: e e' i1 i2 d[unfolded i1] simp_thms)
qed

theorem unknown_tool_yields_error_result_witness:
  "fst (execute_request ''toolu_09'' ''unknown'' (JDict []) two_clients) =
     Inr \<lparr>tool_use_id = ''toolu_09'', tr_type = ''tool_result'',
          tr_content = ''Could not find that tool'', is_error = True\<rparr>
   \<and> invocations (snd (execute_request ''toolu_09'' ''unknown'' (JDict []) two_clients)) = [[], []]
   \<and> fst (execute_gemini_function_calls two_clients
        [\<lparr>fc_name = ''unknown'', fc_args = JDict []\<rparr>, \<lparr>fc_name = ''search'', fc_args = JDict []\<rparr>]) =
      Inr [\<lparr>tool_use_id = ''gemini_call_0_unknown'', tr_type = ''tool_result'',
            tr_content = ''Could not find that tool'', is_error = True\<rparr>,
           \<lparr>tool_use_id = ''gemini_call_1_search'', tr_type = ''tool_result'',
            tr_content = [CHR ''['', CHR 0x22, CHR ''h'', CHR ''i'', CHR ''t'', CHR 0x22, CHR '']''],
            is_error = False\<rparr>]"
proof -
  have no: "no_owner (dict_values two_clients) ''unknown''"
    by (simp add: no_owner_def two_clients_def dict_values_def search_server_def fetch_server_def)
  have inv: "invocations two_clients = [[], []]"
    by (simp add: invocations_def calls_of_def two_clients_def dict_values_def
        search_server_def fetch_server_def)
  have ev: "fst (execute_gemini_function_calls two_clients
        [\<lparr>fc_name = ''unknown'', fc_args = JDict []\<rparr>, \<lparr>fc_name = ''search'', fc_args = JDict []\<rparr>]) =
      Inr [\<lparr>tool_use_id = ''gemini_call_0_unknown'', tr_type = ''tool_result'',
            tr_content = ''Could not find that tool'', is_error = True\<rparr>,
           \<lparr>tool_use_id = ''gemini_call_1_search'', tr_type = ''tool_result'',
            tr_content = [CHR ''['', CHR 0x22, CHR ''h'', CHR ''i'', CHR ''t'', CHR 0x22, CHR '']''],
            is_error = False\<rparr>]"
    by (simp add: eval_defs)
  show ?thesis
    using unknown_tool_yields_error_result[OF no, of "''toolu_09''" "JDict []"] inv ev
    by simp
qed

text \<open>
  C7. When the call of the tool raises an exception that is an \<open>Exception\<close>, the request
  produces the one result with \<open>is_error\<close> set whose content is the JSON object with the
  key \<open>error\<close> and the message \<open>Error executing tool 'name': exception text\<close>; both
  cycles append it and go on with the remaining requests. When it raises an exception
  that is not an \<open>Exception\<close>, nothing catches it: the request and both cycles end with
  that exception and without a result. With clients whose tool calls raise nothing but
  \<open>Exception\<close>s, a batch always returns one result per request.
\<close>

theorem raising_tool_yields_error_result:
  assumes "find_client_with_tool (dict_values clients) tool_name = (Inr (Some k), vs)"
      and "call_tool (vs ! k) tool_name tool_input = (Inl e, c')"
  shows "(is_Exception e \<longrightarrow>
           execute_request tid tool_name tool_input clients =
             (Inr \<lparr>tool_use_id = tid, tr_type = ''tool_result'',
                   tr_content = dumps_error (''Error executing tool '' @ [CHR 0x27] @ tool_name
                                              @ [CHR 0x27] @ '': '' @ str_exc e),
                   is_error = True\<rparr>,
              with_values clients (vs[k := c']))
         \<and> gemini_loop i (\<lparr>fc_name = tool_name, fc_args = tool_input\<rparr> # rest) blocks clients =
             gemini_loop (Suc i) rest
               (blocks @ [\<lparr>tool_use_id = gemini_call_id i tool_name, tr_type = ''tool_result'',
                   tr_content = dumps_error (''Error executing tool '' @ [CHR 0x27] @ tool_name
                                              @ [CHR 0x27] @ '': '' @ str_exc e),
                   is_error = True\<rparr>])
               (with_values clients (vs[k := c']))
         \<and> claude_loop (\<lparr>b_type = Some ''tool_use'', b_id = tid, b_name = tool_name,
                          b_input = tool_input\<rparr> # rest') blocks clients =
             claude_loop rest'
               (blocks @ [\<lparr>tool_use_id = tid, tr_type = ''tool_result'',
                   tr_content = dumps_error (''Error executing tool '' @ [CHR 0x27] @ tool_name
                                              @ [CHR 0x27] @ '': '' @ str_exc e),
                   is_error = True\<rparr>])
               (with_values clients (vs[k := c'])))
       \<and> (\<not> is_Exception e \<longrightarrow>
           execute_request tid tool_name tool_input clients =
             (Inl e, with_values clients (vs[k := c']))
         \<and> gemini_loop i (\<lparr>fc_name = tool_name, fc_args = tool_input\<rparr> # rest) blocks clients =
             (Inl e, with_values clients (vs[k := c']))
         \<and> claude_loop (\<lparr>b_type = Some ''tool_use'', b_id = tid, b_name = tool_name,
                          b_input = tool_input\<rparr> # rest') blocks clients =
             (Inl e, with_values clients (vs[k := c'])))
       \<and> (clients_ok clients \<longrightarrow>
            (\<exists>rs cl'. execute_gemini_function_calls clients fcs = (Inr rs, cl')
                \<and> length rs = length fcs) \<and>
            (\<exists>rs cl'. execute_claude_tool_requests clients reqs = (Inr rs, cl')
                \<and> length rs = length reqs))"
proof -
  have e: "execute_request x tool_name tool_input clients =
           (Inr \<lparr>tool_use_id = x, tr_type = ''tool_result'',
                 tr_content = dumps_error (''Error executing tool '' @ [CHR 0x27] @ tool_name
                                            @ [CHR 0x27] @ '': '' @ str_exc e),
                 is_error = True\<rparr>,
            with_values clients (vs[k := c']))" if "is_Exception e" for x
    using that
    by (simp add: exec_raised[OF assms(1,2)] build_tool_result_part_def error_message_of_def)
  have b: "execute_request x tool_name tool_input clients =
             (Inl e, with_values clients (vs[k := c']))" if "\<not> is_Exception e" for x
    using that by (simp add: exec_raised[OF assms(1,2)])
  have total: "(\<exists>rs cl'. execute_gemini_function_calls clients fcs = (Inr rs, cl')
                \<and> length rs = length fcs) \<and>
            (\<exists>rs cl'. execute_claude_tool_requests clients reqs = (Inr rs, cl')
                \<and> length rs = length reqs)" if ok: "clients_ok clients"
  proof
    from gemini_loop_ok[OF ok, of 0 fcs "[]"] obtain rs cl' where
      g: "execute_gemini_function_calls clients fcs = (Inr rs, cl')"
      by (auto simp: execute_gemini_function_calls_def)
    with gemini_length[OF g] show "\<exists>rs cl'. execute_gemini_function_calls clients fcs = (Inr rs, cl')
                \<and> length rs = length fcs" by blast
    from claude_loop_ok[OF ok, of reqs "[]"] obtain rs cl' where
      c: "execute_claude_tool_requests clients reqs = (Inr rs, cl')"
      by (auto simp: execute_claude_tool_requests_def)
    with claude_length[OF c] show "\<exists>rs cl'. execute_claude_tool_requests clients reqs = (Inr rs, cl')
                \<and> length rs = length reqs" by blast
  qed
  show ?thesis
  proof (cases "is_Exception e")
    case True
    then show ?thesis using total by (simp add: e)
  next
    case False
    then show ?thesis using total by (simp add: b)
  qed
qed

theorem raising_tool_yields_error_result_witness:
  "fst (execute_request ''toolu_02'' ''fetch'' (JDict []) two_clients) =
     Inr \<lparr>tool_use_id = ''toolu_02'', tr_type = ''tool_result'',
          tr_content = ''{'' @ [CHR 0x22] @ ''error'' @ [CHR 0x22] @ '': '' @ [CHR 0x22]
            @ ''Error executing tool '' @ [CHR 0x27] @ ''fetch'' @ [CHR 0x27] @ '': boom''
            @ [CHR 0x22] @ ''}'',
          is_error = True\<rparr>
   \<and> fst (execute_gemini_function_calls two_clients
        [\<lparr>fc_name = ''fetch'', fc_args = JDict []\<rparr>, \<lparr>fc_name = ''search'', fc_args = JDict []\<rparr>]) =
      Inr [\<lparr>tool_use_id = ''gemini_call_0_fetch'', tr_type = ''tool_result'',
            tr_content = ''{'' @ [CHR 0x22] @ ''error'' @ [CHR 0x22] @ '': '' @ [CHR 0x22]
              @ ''Error executing tool '' @ [CHR 0x27] @ ''fetch'' @ [CHR 0x27] @ '': boom''
              @ [CHR 0x22] @ ''}'',
            is_error = True\<rparr>,
           \<lparr>tool_use_id = ''gemini_call_1_search'', tr_type = ''tool_result'',
            tr_content = [CHR ''['', CHR 0x22, CHR ''h'', CHR ''i'', CHR ''t'', CHR 0x22, CHR '']''],
            is_error = False\<rparr>]
   \<and> fst (execute_request ''toolu_03'' ''fetch'' (JDict []) cancel_clients) =
       Inl (BaseOnly ''CancelledError'')
   \<and> dumps_error [CHR 0x22, CHR 0x5C, CHR 0x0A, CHR ''a''] =
       ''{'' @ [CHR 0x22] @ ''error'' @ [CHR 0x22] @ '': '' @ [CHR 0x22]
         @ [CHR 0x5C, CHR 0x22, CHR 0x5C, CHR 0x5C, CHR 0x5C, CHR ''n'', CHR ''a'']
         @ [CHR 0x22] @ ''}''"
proof -
  obtain vs where f: "find_client_with_tool (dict_values two_clients) ''fetch'' = (Inr (Some 1), vs)"
    by (simp add: two_clients_def dict_values_def list_tools_def session_def
        search_server_def fetch_server_def)
  obtain c' where c: "call_tool (vs ! 1) ''fetch'' (JDict []) = (Inl (OtherException ''boom''), c')"
    using f
    by (auto simp: two_clients_def dict_values_def list_tools_def session_def call_tool_def
        search_server_def fetch_server_def)
  obtain ws where f2: "find_client_with_tool (dict_values cancel_clients) ''fetch'' = (Inr (Some 0), ws)"
    by (simp add: cancel_clients_def dict_values_def list_tools_def session_def
        search_server_def cancel_server_def)
  obtain c2 where c2: "call_tool (ws ! 0) ''fetch'' (JDict []) = (Inl (BaseOnly ''CancelledError''), c2)"
    using f2
    by (auto simp: cancel_clients_def dict_values_def list_tools_def session_def call_tool_def
        search_server_def cancel_server_def)
  have d: "dumps_error (''Error executing tool '' @ [CHR 0x27] @ ''fetch'' @ [CHR 0x27] @ '': ''
              @ str_exc (OtherException ''boom'')) =
           ''{'' @ [CHR 0x22] @ ''error'' @ [CHR 0x22] @ '': '' @ [CHR 0x22]
            @ ''Error executing tool '' @ [CHR 0x27] @ ''fetch'' @ [CHR 0x27] @ '': boom''
            @ [CHR 0x22] @ ''}''"
    by (simp add: dumps_error_def dumps_str_def escape_char_def)
  have q: "dumps_error [CHR 0x22, CHR 0x5C, CHR 0x0A, CHR ''a''] =
       ''{'' @ [CHR 0x22] @ ''error'' @ [CHR 0x22] @ '': '' @ [CHR 0x22]
         @ [CHR 0x5C, CHR 0x22, CHR 0x5C, CHR 0x5C, CHR 0x5C, CHR ''n'', CHR ''a'']
         @ [CHR 0x22] @ ''}''"
    by (simp add: dumps_error_def dumps_str_def escape_char_def)
  have ev: "fst (execute_gemini_function_calls two_clients
        [\<lparr>fc_name = ''fetch'', fc_args = JDict []\<rparr>, \<lparr>fc_name = ''search'', fc_args = JDict []\<rparr>]) =
      Inr [\<lparr>tool_use_id = ''gemini_call_0_fetch'', tr_type = ''tool_result'',
            tr_content = ''{'' @ [CHR 0x22] @ ''error'' @ [CHR 0x22] @ '': '' @ [CHR 0x22]
              @ ''Error executing tool '' @ [CHR 0x27] @ ''fetch'' @ [CHR 0x27] @ '': boom''
              @ [CHR 0x22] @ ''}'',
            is_error = True\<rparr>,
           \<lparr>tool_use_id = ''gemini_call_1_search'', tr_type = ''tool_result'',
            tr_content = [CHR ''['', CHR 0x22, CHR ''h'', CHR ''i'', CHR ''t'', CHR 0x22, CHR '']''],
            is_error = False\<rparr>]"
    by (simp add: eval_defs)
  from raising_tool_yields_error_result[OF f c, of "''toolu_02''"]
  have a1: "fst (execute_request ''toolu_02'' ''fetch'' (JDict []) two_clients) =
     Inr \<lparr>tool_use_id = ''toolu_02'', tr_type = ''tool_result'',
          tr_content = dumps_error (''Error executing tool '' @ [CHR 0x27] @ ''fetch'' @ [CHR 0x27] @ '': ''
              @ str_exc (OtherException ''boom'')),
          is_error = True\<rparr>"
    by simp
  from raising_tool_yields_error_result[OF f2 c2, of "''toolu_03''"]
  have a2: "fst (execute_request ''toolu_03'' ''fetch'' (JDict []) cancel_clients) =
       Inl (BaseOnly ''CancelledError'')"
    by simp
  from a1 have a1': "fst (execute_request ''toolu_02'' ''fetch'' (JDict []) two_clients) =
     Inr \<lparr>tool_use_id = ''toolu_02'', tr_type = ''tool_result'',
          tr_content = ''{'' @ [CHR 0x22] @ ''error'' @ [CHR 0x22] @ '': '' @ [CHR 0x22]
            @ ''Error executing tool '' @ [CHR 0x27] @ ''fetch'' @ [CHR 0x27] @ '': boom''
            @ [CHR 0x22] @ ''}'',
          is_error = True\<rparr>"
    by (simp only: d)
  show ?thesis
    by (intro conjI) (rule a1', rule ev, rule a2, rule q)
qed

text \<open>
  The batch of C7 with a tool call that is cancelled: the first request raises an
  exception outside \<open>Exception\<close>, the batch ends with it and without results, and the
  second request is never sent to its server.
\<close>

theorem uncaught_exception_aborts_batch:
  "fst (execute_gemini_function_calls cancel_clients
        [\<lparr>fc_name = ''fetch'', fc_args = JDict []\<rparr>, \<lparr>fc_name = ''search'', fc_args = JDict []\<rparr>]) =
      Inl (BaseOnly ''CancelledError'')
   \<and> invocations (snd (execute_gemini_function_calls cancel_clients
        [\<lparr>fc_name = ''fetch'', fc_args = JDict []\<rparr>, \<lparr>fc_name = ''search'', fc_args = JDict []\<rparr>])) =
      [[CallTool ''fetch'' (JDict [])], []]"
  by (simp add: execute_gemini_function_calls_def execute_request_def cancel_clients_def
      cancel_server_def search_server_def dict_values_def with_values_def list_tools_def
      call_tool_def session_def gemini_call_id_def invocations_def calls_of_def)

text \<open>
  C8. \<open>cleanup\<close> returns normally when the teardown raises nothing or raises an
  \<open>Exception\<close>, and ends with the exception when the teardown raises one that is not an
  \<open>Exception\<close>. On every path the session field is cleared, so that afterwards
  \<open>list_tools\<close> and \<open>call_tool\<close> raise the session-not-initialized \<open>ConnectionError\<close>
  at once, without reaching a server.
\<close>

theorem cleanup_closes_session:
  "((case teardown of None \<Rightarrow> True | Some e \<Rightarrow> is_Exception e) \<longrightarrow>
       fst (cleanup teardown c) = Inr ())
   \<and> (teardown = Some e \<and> \<not> is_Exception e \<longrightarrow> fst (cleanup teardown c) = Inl e)
   \<and> session_field (snd (cleanup teardown c)) = None
   \<and> list_tools (snd (cleanup teardown c)) = (Inl session_not_initialized, snd (cleanup teardown c))
   \<and> call_tool (snd (cleanup teardown c)) tool_name tool_input =
        (Inl session_not_initialized, snd (cleanup teardown c))
   \<and> session_not_initialized = ConnectionError
       ''Client session not initialized or cache not populated. Call connect_to_server first.''"
  by (auto simp: cleanup_def list_tools_None call_tool_None session_not_initialized_def
      split: option.splits)

theorem cleanup_closes_session_witness:
  "fst (cleanup (Some (OtherException ''transport closed'')) \<lparr>session_field = Some search_server\<rparr>) = Inr ()
   \<and> fst (list_tools (snd (cleanup (Some (OtherException ''transport closed''))
                               \<lparr>session_field = Some search_server\<rparr>)))
       = Inl (ConnectionError
          ''Client session not initialized or cache not populated. Call connect_to_server first.'')
   \<and> fst (call_tool (snd (cleanup (Some (OtherException ''transport closed''))
                               \<lparr>session_field = Some search_server\<rparr>)) ''search'' (JDict []))
       = Inl (ConnectionError
          ''Client session not initialized or cache not populated. Call connect_to_server first.'')
   \<and> (\<exists>ts. fst (list_tools \<lparr>session_field = Some search_server\<rparr>) = Inr ts)
   \<and> fst (cleanup (Some (BaseOnly ''CancelledError'')) \<lparr>session_field = Some search_server\<rparr>)
       = Inl (BaseOnly ''CancelledError'')
   \<and> fst (list_tools (snd (cleanup (Some (BaseOnly ''CancelledError''))
                               \<lparr>session_field = Some search_server\<rparr>)))
       = Inl (ConnectionError
          ''Client session not initialized or cache not populated. Call connect_to_server first.'')
   \<and> fst (cleanup None \<lparr>session_field = Some search_server\<rparr>) = Inr ()"
proof -
  have "\<exists>ts. fst (list_tools \<lparr>session_field = Some search_server\<rparr>) = Inr ts"
    by (simp add: list_tools_def session_def search_server_def)
  then show ?thesis
    using cleanup_closes_session[of "Some (OtherException ''transport closed'')"
        "\<lparr>session_field = Some search_server\<rparr>" _ "''search''" "JDict []"]
      cleanup_closes_session[of "Some (BaseOnly ''CancelledError'')"
        "\<lparr>session_field = Some search_server\<rparr>" "BaseOnly ''CancelledError''"]
      cleanup_closes_session[of None "\<lparr>session_field = Some search_server\<rparr>"]
    by simp
qed

text \<open>
  The teardown of C8 under cancellation: the exception is not an \<open>Exception\<close>, so the
  \<open>except\<close> clause does not take it and it leaves \<open>cleanup\<close>.
\<close>

theorem cleanup_does_not_suppress_cancellation:
  "fst (cleanup (Some (BaseOnly ''CancelledError'')) \<lparr>session_field = Some search_server\<rparr>)
     = Inl (BaseOnly ''CancelledError'')"
  by (simp add: cleanup_def)

section \<open>Properties of the conversation cycle\<close>

subsection \<open>behaviour is kept\<close>

lemma behaviour_list_tools: "behaviour_of (snd (list_tools c)) = behaviour_of c"
  by (cases "session_field c") (simp_all add: list_tools_None list_tools_Some behaviour_of_def)

lemma behaviour_call_tool: "behaviour_of (snd (call_tool c n a)) = behaviour_of c"
  by (cases "session_field c") (simp_all add: call_tool_None call_tool_Some behaviour_of_def)

lemma catalog_ok_behaviour: "behaviour_of c = behaviour_of c' \<Longrightarrow> catalog_ok c = catalog_ok c'"
  by (cases "session_field c"; cases "session_field c'")
     (auto simp: behaviour_of_def catalog_ok_def session_ok_def)

lemma catalogs_ok_behaviour:
  assumes "map behaviour_of vs = map behaviour_of vs'"
  shows "list_all catalog_ok vs = list_all catalog_ok vs'"
proof -
  have len: "length vs = length vs'" using assms by (rule map_eq_imp_length_eq)
  have "catalog_ok (vs ! i) = catalog_ok (vs' ! i)" if "i < length vs" for i
  proof -
    have "map behaviour_of vs ! i = map behaviour_of vs' ! i" by (simp only: assms)
    with that len have "behaviour_of (vs ! i) = behaviour_of (vs' ! i)" by simp
    then show ?thesis by (rule catalog_ok_behaviour)
  qed
  with len show ?thesis by (auto simp: list_all_length)
qed

lemma find_behaviour: "map behaviour_of (snd (find_client_with_tool cs n)) = map behaviour_of cs"
proof (induction cs)
  case Nil
  then show ?case by simp
next
  case (Cons c cs)
  obtain r c' where lt: "list_tools c = (r, c')" by (cases "list_tools c")
  then have c': "behaviour_of c' = behaviour_of c" using behaviour_list_tools[of c] by simp
  show ?case using Cons.IH lt c'
    by (auto split: sum.splits prod.splits)
qed

lemma exec_behaviour:
  "map behaviour_of (dict_values (snd (execute_request i n a clients)))
     = map behaviour_of (dict_values clients)"
proof -
  obtain r vs where f: "find_client_with_tool (dict_values clients) n = (r, vs)"
    by (cases "find_client_with_tool (dict_values clients) n")
  have len: "length vs = length clients" using find_length[of "dict_values clients" n] f by simp
  have b: "map behaviour_of vs = map behaviour_of (dict_values clients)"
    using find_behaviour[of "dict_values clients" n] f by simp
  show ?thesis
  proof (cases r)
    case (Inl e)
    with f len b show ?thesis by (simp add: exec_propagates)
  next
    case (Inr ko)
    show ?thesis
    proof (cases ko)
      case None
      with f Inr len b show ?thesis by (simp add: exec_not_found)
    next
      case (Some k)
      obtain res c' where ct: "call_tool (vs ! k) n a = (res, c')" by (cases "call_tool (vs ! k) n a")
      then have "behaviour_of c' = behaviour_of (vs ! k)" using behaviour_call_tool[of "vs ! k" n a] by simp
      moreover have "k < length vs"
        using find_index[of "dict_values clients" n k vs] f Inr Some len by simp
      ultimately have b': "map behaviour_of (vs[k := c']) = map behaviour_of vs"
        by (simp add: map_update list_update_same_conv)
      have snd_eq: "snd (execute_request i n a clients) = with_values clients (vs[k := c'])"
        using f Inr Some ct by (cases res) (simp_all add: exec_raised exec_returned)
      show ?thesis using b b' len by (simp add: snd_eq)
    qed
  qed
qed

lemma gemini_loop_behaviour:
  "map behaviour_of (dict_values (snd (gemini_loop i fcs acc clients)))
     = map behaviour_of (dict_values clients)"
proof (induction fcs arbitrary: i acc clients)
  case Nil
  then show ?case by simp
next
  case (Cons fc fcs)
  obtain res c1 where e: "execute_request (gemini_call_id i (fc_name fc)) (fc_name fc) (fc_args fc) clients = (res, c1)"
    by (cases "execute_request (gemini_call_id i (fc_name fc)) (fc_name fc) (fc_args fc) clients")
  have b: "map behaviour_of (dict_values c1) = map behaviour_of (dict_values clients)"
    using exec_behaviour[of "gemini_call_id i (fc_name fc)" "fc_name fc" "fc_args fc" clients] e by simp
  show ?case using e b Cons.IH by (cases res) simp_all
qed

lemma claude_loop_behaviour:
  "map behaviour_of (dict_values (snd (claude_loop reqs acc clients)))
     = map behaviour_of (dict_values clients)"
proof (induction reqs arbitrary: acc clients)
  case Nil
  then show ?case by simp
next
  case (Cons b reqs)
  obtain res c1 where e: "execute_request (b_id b) (b_name b) (b_input b) clients = (res, c1)"
    by (cases "execute_request (b_id b) (b_name b) (b_input b) clients")
  have bh: "map behaviour_of (dict_values c1) = map behaviour_of (dict_values clients)"
    using exec_behaviour[of "b_id b" "b_name b" "b_input b" clients] e by simp
  show ?case using e bh Cons.IH by (cases res) simp_all
qed

lemma execute_tool_requests_behaviour:
  "map behaviour_of (dict_values (snd (execute_tool_requests clients r)))
     = map behaviour_of (dict_values clients)"
  by (simp add: execute_tool_requests_def execute_gemini_function_calls_def
      execute_claude_tool_requests_def gemini_loop_behaviour claude_loop_behaviour
      split: option.splits)

lemma catalogs_ok_clients_ok: "catalogs_ok clients \<Longrightarrow> clients_ok clients"
  by (auto simp: catalogs_ok_def clients_ok_def list_all_iff catalog_ok_client_ok)

subsection \<open>the catalog\<close>

lemma gemini_tools_ok:
  "(\<And>t. t \<in> set ts \<Longrightarrow> \<exists>g. gemini_tool t = Inr g) \<Longrightarrow> \<exists>tools. gemini_tools ts acc = Inr tools"
proof (induction ts arbitrary: acc)
  case Nil
  then show ?case by simp
next
  case (Cons t ts)
  from Cons.prems[of t] obtain g where g: "gemini_tool t = Inr g" by auto
  from Cons.IH[of "acc @ [g]"] Cons.prems show ?case by (simp add: g)
qed

lemma catalog_ok_list_tools:
  assumes "catalog_ok c"
  shows "\<exists>ts c'. list_tools c = (Inr ts, c') \<and> catalog_ok c' \<and> (\<forall>t\<in>set ts. \<exists>g. gemini_tool t = Inr g)"
proof -
  from assms obtain s where s: "session_field c = Some s" and ok: "session_ok s"
    and sch: "\<And>h ts t. on_list_tools s h = Inr ts \<Longrightarrow> t \<in> set ts \<Longrightarrow> \<exists>g. gemini_tool t = Inr g"
    by (auto simp: catalog_ok_def split: option.splits)
  from ok obtain ts where ts: "on_list_tools s (history s) = Inr ts"
    unfolding session_ok_def by blast
  have "catalog_ok (snd (list_tools c))"
    using catalog_ok_behaviour[OF behaviour_list_tools[of c]] assms by simp
  then show ?thesis using sch[OF ts]
    by (simp add: list_tools_Some[OF s] ts)
qed

lemma get_all_tools_loop_ok:
  "list_all catalog_ok cs \<Longrightarrow>
   \<exists>tools cs'. get_all_tools_loop cs acc = (Inr tools, cs') \<and> list_all catalog_ok cs' \<and> length cs' = length cs"
proof (induction cs arbitrary: acc)
  case Nil
  then show ?case by simp
next
  case (Cons c cs)
  from Cons.prems have c: "catalog_ok c" and rest: "list_all catalog_ok cs" by simp_all
  from catalog_ok_list_tools[OF c] obtain ts c' where lt: "list_tools c = (Inr ts, c')"
    and c': "catalog_ok c'" and sch: "\<forall>t\<in>set ts. \<exists>g. gemini_tool t = Inr g" by blast
  from gemini_tools_ok[of ts acc] sch obtain tools' where gt: "gemini_tools ts acc = Inr tools'" by blast
  from Cons.IH[OF rest, of tools'] obtain tools cs' where
    l: "get_all_tools_loop cs tools' = (Inr tools, cs')" and ok: "list_all catalog_ok cs'"
    and len: "length cs' = length cs" by blast
  show ?case using lt gt l ok len c' by simp
qed

lemma get_all_tools_ok:
  assumes "catalogs_ok clients"
  shows "\<exists>tools cl'. get_all_tools clients = (Inr tools, cl') \<and> catalogs_ok cl'"
proof -
  from assms have "list_all catalog_ok (dict_values clients)" by (simp add: catalogs_ok_def)
  from get_all_tools_loop_ok[OF this, of "[]"] obtain tools vs where
    l: "get_all_tools_loop (dict_values clients) [] = (Inr tools, vs)"
    and ok: "list_all catalog_ok vs" and len: "length vs = length (dict_values clients)" by blast
  show ?thesis using l ok len by (simp add: get_all_tools_def catalogs_ok_def)
qed

lemma execute_tool_requests_catalogs_ok:
  assumes "catalogs_ok clients"
  shows "\<exists>rs cl'. execute_tool_requests clients r = (Inr rs, cl') \<and> catalogs_ok cl'"
proof -
  from execute_tool_requests_ok[OF catalogs_ok_clients_ok[OF assms], of r] obtain rs cl' where
    e: "execute_tool_requests clients r = (Inr rs, cl')" by blast
  have "map behaviour_of (dict_values cl') = map behaviour_of (dict_values clients)"
    using execute_tool_requests_behaviour[of clients r] e by simp
  from catalogs_ok_behaviour[OF this] assms have "catalogs_ok cl'" by (simp add: catalogs_ok_def)
  with e show ?thesis by blast
qed

subsection \<open>messages\<close>

lemma add_assistant_fields [simp]:
  "ai_service (add_assistant_message c r) = ai_service c"
  "chat_clients (add_assistant_message c r) = chat_clients c"
  "adapter_calls (add_assistant_message c r) = adapter_calls c"
  by (simp_all add: add_assistant_message_def Let_def)

lemma add_user_fields [simp]:
  "ai_service (add_user_message c ps) = ai_service c"
  "chat_clients (add_user_message c ps) = chat_clients c"
  "adapter_calls (add_user_message c ps) = adapter_calls c"
  by (simp_all add: add_user_message_def Let_def)

lemma add_assistant_messages:
  "\<exists>a. messages (add_assistant_message c r) = messages c @ [a]
       \<and> (has_function_call_parts a \<longleftrightarrow> wants_function_calls r)"
proof (cases "wants_function_calls r")
  case True
  then obtain fc fcs where "resp_function_calls r = Some (fc # fcs)"
    by (auto simp: wants_function_calls_def neq_Nil_conv split: option.splits)
  with True show ?thesis
    by (simp add: add_assistant_message_def Let_def has_function_call_parts_def)
next
  case False
  then show ?thesis
    by (simp add: add_assistant_message_def has_function_call_parts_def)
qed

lemma add_user_messages:
  "messages (add_user_message c ps) = messages c @
     [\<lparr>m_role = User, m_content = Text (if ps = [] then no_results_text
                                          else results_header @ concat (map result_line ps))\<rparr>]"
  by (simp add: add_user_message_def Let_def)

lemma tool_result_message:
  "is_tool_result_message \<lparr>m_role = User, m_content = Text (if ps = [] then no_results_text
                                          else results_header @ concat (map result_line ps))\<rparr>"
  by (simp add: is_tool_result_message_def)

lemma user_no_calls: "m_role m = User \<Longrightarrow> \<not> has_function_call_parts m"
  by (simp add: has_function_call_parts_def)

lemma paired_snoc: "paired ms \<Longrightarrow> \<not> has_function_call_parts m \<Longrightarrow> paired (ms @ [m])"
  by (induction ms rule: paired.induct) auto

lemma paired_snoc2:
  "paired ms \<Longrightarrow> is_tool_result_message u \<Longrightarrow> paired (ms @ [a, u])"
proof (induction ms rule: paired.induct)
  case 1
  then show ?case by (simp add: user_no_calls is_tool_result_message_def)
next
  case (2 m)
  then show ?case by (simp add: user_no_calls is_tool_result_message_def)
next
  case (3 m m' ms)
  then show ?case by simp
qed

lemma paired_after_snoc:
  "paired_after base t \<Longrightarrow> \<not> has_function_call_parts m \<Longrightarrow> paired_after base (t @ [m])"
proof -
  assume a: "paired_after base t" and m: "\<not> has_function_call_parts m"
  then have len: "length base \<le> length t"
    by (metis paired_after_def length_take min.cobounded1 min.commute)
  with a m show ?thesis by (simp add: paired_after_def paired_snoc)
qed

lemma paired_after_snoc2:
  "paired_after base t \<Longrightarrow> is_tool_result_message u \<Longrightarrow> paired_after base (t @ [a, u])"
proof -
  assume a: "paired_after base t" and u: "is_tool_result_message u"
  then have len: "length base \<le> length t"
    by (metis paired_after_def length_take min.cobounded1 min.commute)
  with a u show ?thesis by (simp add: paired_after_def paired_snoc2)
qed

subsection \<open>one pass\<close>

lemma loop_body_cases:
  obtains
    (catalog_raises) e cl1 where
      "loop_body chat = (Inl e, chat\<lparr>chat_clients := cl1\<rparr>)"
  | (adapter_raises) e cl1 where
      "loop_body chat = (Inl e, chat\<lparr>chat_clients := cl1,
                           adapter_calls := adapter_calls chat @ [messages chat]\<rparr>)"
  | (plain_text) r tools cl1 where
      "get_all_tools (chat_clients chat) = (Inr tools, cl1)"
      "ai_service chat (messages chat) tools = Inr r" "\<not> wants_function_calls r"
      "loop_body chat = (Inr (Some (response_text r)),
          add_assistant_message (chat\<lparr>chat_clients := cl1,
                           adapter_calls := adapter_calls chat @ [messages chat]\<rparr>) r)"
  | (tools_raise) r tools cl1 e cl3 where
      "get_all_tools (chat_clients chat) = (Inr tools, cl1)"
      "ai_service chat (messages chat) tools = Inr r" "wants_function_calls r"
      "execute_tool_requests cl1 r = (Inl e, cl3)"
      "loop_body chat = (Inl e,
          (add_assistant_message (chat\<lparr>chat_clients := cl1,
                           adapter_calls := adapter_calls chat @ [messages chat]\<rparr>) r)
            \<lparr>chat_clients := cl3\<rparr>)"
  | (tools_run) r tools cl1 parts cl3 where
      "get_all_tools (chat_clients chat) = (Inr tools, cl1)"
      "ai_service chat (messages chat) tools = Inr r" "wants_function_calls r"
      "execute_tool_requests cl1 r = (Inr parts, cl3)"
      "loop_body chat = (Inr None,
          add_user_message ((add_assistant_message (chat\<lparr>chat_clients := cl1,
                           adapter_calls := adapter_calls chat @ [messages chat]\<rparr>) r)
            \<lparr>chat_clients := cl3\<rparr>) parts)"
proof -
  obtain g cl1 where g: "get_all_tools (chat_clients chat) = (g, cl1)"
    by (cases "get_all_tools (chat_clients chat)")
  show ?thesis
  proof (cases g)
    case (Inl e)
    with g have "loop_body chat = (Inl e, chat\<lparr>chat_clients := cl1\<rparr>)"
      by (simp add: loop_body_def)
    then show ?thesis by (rule catalog_raises)
  next
    case (Inr tools)
    note tools = g[unfolded Inr]
    show ?thesis
    proof (cases "ai_service chat (messages chat) tools")
      case (Inl e)
      with tools have "loop_body chat = (Inl e, chat\<lparr>chat_clients := cl1,
                           adapter_calls := adapter_calls chat @ [messages chat]\<rparr>)"
        by (simp add: loop_body_def Let_def)
      then show ?thesis by (rule adapter_raises)
    next
      case r: (Inr r)
      show ?thesis
      proof (cases "wants_function_calls r")
        case False
        with tools r have "loop_body chat = (Inr (Some (response_text r)),
          add_assistant_message (chat\<lparr>chat_clients := cl1,
                           adapter_calls := adapter_calls chat @ [messages chat]\<rparr>) r)"
          by (simp add: loop_body_def Let_def)
        with tools r False show ?thesis by (rule plain_text)
      next
        case True
        obtain x cl3 where x: "execute_tool_requests cl1 r = (x, cl3)"
          by (cases "execute_tool_requests cl1 r")
        show ?thesis
        proof (cases x)
          case (Inl e)
          with tools r True x have "loop_body chat = (Inl e,
            (add_assistant_message (chat\<lparr>chat_clients := cl1,
                           adapter_calls := adapter_calls chat @ [messages chat]\<rparr>) r)
            \<lparr>chat_clients := cl3\<rparr>)"
            by (simp add: loop_body_def Let_def)
          with tools r True x[unfolded Inl] show ?thesis by (rule tools_raise)
        next
          case (Inr parts)
          with tools r True x have "loop_body chat = (Inr None,
            add_user_message ((add_assistant_message (chat\<lparr>chat_clients := cl1,
                           adapter_calls := adapter_calls chat @ [messages chat]\<rparr>) r)
              \<lparr>chat_clients := cl3\<rparr>) parts)"
            by (simp add: loop_body_def Let_def)
          with tools r True x[unfolded Inr] show ?thesis by (rule tools_run)
        qed
      qed
    qed
  qed
qed

lemma loop_body_ai: "ai_service (snd (loop_body chat)) = ai_service chat"
  by (cases chat rule: loop_body_cases) simp_all

lemma loop_body_log:
  "adapter_calls (snd (loop_body chat)) = adapter_calls chat \<or>
   adapter_calls (snd (loop_body chat)) = adapter_calls chat @ [messages chat]"
  by (cases chat rule: loop_body_cases) simp_all

lemma loop_body_continue:
  assumes "fst (loop_body chat) = Inr None"
  shows "\<exists>a ps. has_function_call_parts a \<and>
           messages (snd (loop_body chat)) = messages chat @
             [a, \<lparr>m_role = User, m_content = Text (if ps = [] then no_results_text
                                          else results_header @ concat (map result_line ps))\<rparr>]
         \<and> adapter_calls (snd (loop_body chat)) = adapter_calls chat @ [messages chat]"
proof (cases chat rule: loop_body_cases)
  case (tools_run r tools cl1 parts cl3)
  let ?c1 = "chat\<lparr>chat_clients := cl1, adapter_calls := adapter_calls chat @ [messages chat]\<rparr>"
  from add_assistant_messages[of ?c1 r] tools_run(3) obtain a where
    a: "messages (add_assistant_message ?c1 r) = messages chat @ [a]" and fc: "has_function_call_parts a"
    by auto
  show ?thesis
    by (rule exI[of _ a], rule exI[of _ parts]) (simp add: tools_run(5) add_user_messages a fc)
qed (use assms in simp_all)

lemma loop_body_always:
  assumes "always_wants chat"
  shows "fst (loop_body chat) = Inr None \<and> always_wants (snd (loop_body chat))"
proof -
  from assms have cat: "catalogs_ok (chat_clients chat)"
    and ai: "\<And>msgs tools. \<exists>r. ai_service chat msgs tools = Inr r \<and> wants_function_calls r"
    by (simp_all add: always_wants_def)
  from get_all_tools_ok[OF cat] obtain tools cl1 where
    g: "get_all_tools (chat_clients chat) = (Inr tools, cl1)" and ok1: "catalogs_ok cl1" by blast
  from ai[of "messages chat" tools] obtain r where
    r: "ai_service chat (messages chat) tools = Inr r" and w: "wants_function_calls r" by blast
  from execute_tool_requests_catalogs_ok[OF ok1, of r] obtain parts cl3 where
    e: "execute_tool_requests cl1 r = (Inr parts, cl3)" and ok3: "catalogs_ok cl3" by blast
  have lb: "loop_body chat = (Inr None,
          add_user_message ((add_assistant_message (chat\<lparr>chat_clients := cl1,
                           adapter_calls := adapter_calls chat @ [messages chat]\<rparr>) r)
            \<lparr>chat_clients := cl3\<rparr>) parts)"
    using g r w e by (simp add: loop_body_def Let_def)
  show ?thesis using ai ok3 by (simp add: lb always_wants_def)
qed

subsection \<open>the whole cycle\<close>

lemma run_loop_done:
  "\<not> ic < max_iterations \<Longrightarrow> run_loop ic f chat = (Inr (f, ic), chat)"
  by (simp add: run_loop.simps)

lemma run_loop_step:
  "ic < max_iterations \<Longrightarrow>
   run_loop ic f chat =
     (case loop_body chat of
        (Inl e, chat') \<Rightarrow> (Inl e, chat')
      | (Inr (Some text'), chat') \<Rightarrow> (Inr (text', Suc ic), chat')
      | (Inr None, chat') \<Rightarrow> run_loop (Suc ic) f chat')"
  by (simp add: run_loop.simps[of ic])

lemma run_loop_stops_or_continues:
  assumes "ic < max_iterations"
  shows "(fst (loop_body chat) = Inr None \<and>
            run_loop ic f chat = run_loop (Suc ic) f (snd (loop_body chat))) \<or>
         (fst (loop_body chat) \<noteq> Inr None \<and> snd (run_loop ic f chat) = snd (loop_body chat))"
proof -
  obtain x chat' where lb: "loop_body chat = (x, chat')" by (cases "loop_body chat")
  show ?thesis
  proof (cases x)
    case (Inl e)
    with lb assms show ?thesis by (simp add: run_loop_step)
  next
    case (Inr y)
    with lb assms show ?thesis by (cases y) (simp_all add: run_loop_step)
  qed
qed

lemma run_loop_log:
  "n = max_iterations - ic \<Longrightarrow>
   \<exists>new. adapter_calls (snd (run_loop ic f chat)) = adapter_calls chat @ new \<and> length new \<le> n
       \<and> (paired_after base (messages chat) \<longrightarrow> list_all (paired_after base) new)"
proof (induction n arbitrary: ic chat)
  case 0
  then have "\<not> ic < max_iterations" by simp
  then show ?case by (simp add: run_loop_done)
next
  case (Suc n)
  then have lt: "ic < max_iterations" and n: "n = max_iterations - Suc ic" by simp_all
  from run_loop_stops_or_continues[OF lt, of chat f] show ?case
  proof
    assume a: "fst (loop_body chat) = Inr None \<and>
            run_loop ic f chat = run_loop (Suc ic) f (snd (loop_body chat))"
    let ?c = "snd (loop_body chat)"
    from loop_body_continue[OF a[THEN conjunct1]] obtain u ps where
      fc: "has_function_call_parts u" and
      ms: "messages ?c = messages chat @
             [u, \<lparr>m_role = User, m_content = Text (if ps = [] then no_results_text
                                          else results_header @ concat (map result_line ps))\<rparr>]" and
      log: "adapter_calls ?c = adapter_calls chat @ [messages chat]" by blast
    from Suc.IH[OF n, of ?c] obtain new where
      new: "adapter_calls (snd (run_loop (Suc ic) f ?c)) = adapter_calls ?c @ new" and
      len: "length new \<le> n" and
      pa: "paired_after base (messages ?c) \<longrightarrow> list_all (paired_after base) new" by blast
    have keep: "paired_after base (messages chat) \<Longrightarrow> paired_after base (messages ?c)"
      unfolding ms by (rule paired_after_snoc2) (simp_all add: tool_result_message)
    show ?thesis
      by (rule exI[of _ "messages chat # new"]) (use a new len pa keep log in auto)
  next
    assume a: "fst (loop_body chat) \<noteq> Inr None \<and> snd (run_loop ic f chat) = snd (loop_body chat)"
    from loop_body_log[of chat] show ?thesis
    proof
      assume "adapter_calls (snd (loop_body chat)) = adapter_calls chat"
      with a show ?thesis by simp
    next
      assume "adapter_calls (snd (loop_body chat)) = adapter_calls chat @ [messages chat]"
      with a show ?thesis by (intro exI[of _ "[messages chat]"]) simp
    qed
  qed
qed

lemma run_loop_always:
  "n = max_iterations - ic \<Longrightarrow> ic \<le> max_iterations \<Longrightarrow> always_wants chat \<Longrightarrow>
   fst (run_loop ic f chat) = Inr (f, max_iterations)
   \<and> length (adapter_calls (snd (run_loop ic f chat))) = length (adapter_calls chat) + n
   \<and> length (messages (snd (run_loop ic f chat))) = length (messages chat) + 2 * n"
proof (induction n arbitrary: ic chat)
  case 0
  then have "\<not> ic < max_iterations" and "ic = max_iterations" by simp_all
  then show ?case by (simp add: run_loop_done)
next
  case (Suc n)
  then have lt: "ic < max_iterations" and n: "n = max_iterations - Suc ic"
    and le: "Suc ic \<le> max_iterations" by simp_all
  let ?c = "snd (loop_body chat)"
  from loop_body_always[OF Suc.prems(3)] have none: "fst (loop_body chat) = Inr None"
    and aw: "always_wants ?c" by simp_all
  from run_loop_stops_or_continues[OF lt, of chat f] none
  have step: "run_loop ic f chat = run_loop (Suc ic) f ?c" by simp
  from loop_body_continue[OF none] have
    ms: "length (messages ?c) = length (messages chat) + 2" and
    log: "length (adapter_calls ?c) = length (adapter_calls chat) + 1" by auto
  from Suc.IH[OF n le aw] show ?case by (simp add: step ms log)
qed

lemma run_snd: "snd (run chat query) = snd (run_loop 0 [] (process_query chat query))"
  by (simp add: run_def split: prod.splits sum.splits)

lemma process_query_fields [simp]:
  "ai_service (process_query chat query) = ai_service chat"
  "chat_clients (process_query chat query) = chat_clients chat"
  "adapter_calls (process_query chat query) = adapter_calls chat"
  "messages (process_query chat query) = messages chat @ [\<lparr>m_role = User, m_content = Text query\<rparr>]"
  by (simp_all add: process_query_def)

text \<open>
  C1. For every adapter and every clients dict, \<open>run\<close> calls the adapter at most five
  times. When every answer of the adapter carries function calls and the catalogs of the
  clients can be listed, \<open>run\<close> returns after exactly five calls of the adapter and five
  tool turns (the query and ten more messages in the transcript), and its result is the
  fixed fallback text.
\<close>

theorem run_at_most_five_cycles:
  "(\<exists>new. adapter_calls (snd (run chat query)) = adapter_calls chat @ new \<and> length new \<le> 5)
   \<and> (always_wants chat \<longrightarrow>
        fst (run chat query) = Inr fallback_text
        \<and> length (adapter_calls (snd (run chat query))) = length (adapter_calls chat) + 5
        \<and> length (messages (snd (run chat query))) = length (messages chat) + 11)
   \<and> fallback_text =
       ''I encountered an issue while processing your request. Please try rephrasing your question.''"
proof (intro conjI impI)
  from run_loop_log[of 5 0 "[]" "process_query chat query" "[]"]
  show "\<exists>new. adapter_calls (snd (run chat query)) = adapter_calls chat @ new \<and> length new \<le> 5"
    by (auto simp: run_snd max_iterations_def)
next
  assume aw: "always_wants chat"
  then have aw': "always_wants (process_query chat query)" by (simp add: always_wants_def)
  from run_loop_always[of 5 0 "process_query chat query" "[]"] aw'
  have f: "fst (run_loop 0 [] (process_query chat query)) = Inr ([], max_iterations)"
    and l: "length (adapter_calls (snd (run_loop 0 [] (process_query chat query))))
              = length (adapter_calls chat) + 5"
    and m: "length (messages (snd (run_loop 0 [] (process_query chat query))))
              = length (messages chat) + 11"
    by (simp_all add: max_iterations_def)
  from f show "fst (run chat query) = Inr fallback_text"
    by (cases "run_loop 0 [] (process_query chat query)") (simp add: run_def)
  from l show "length (adapter_calls (snd (run chat query))) = length (adapter_calls chat) + 5"
    by (simp add: run_snd)
  from m show "length (messages (snd (run chat query))) = length (messages chat) + 11"
    by (simp add: run_snd)
next
  show "fallback_text =
       ''I encountered an issue while processing your request. Please try rephrasing your question.''"
    by (simp add: fallback_text_def)
qed

lemma two_catalogs_ok: "catalogs_ok two_clients"
  by (simp add: catalogs_ok_def catalog_ok_def session_ok_def two_clients_def dict_values_def
      search_server_def fetch_server_def gemini_tool_def)

theorem run_at_most_five_cycles_witness:
  "fst (run (chat_with always_calls) ''q'') = Inr fallback_text
   \<and> length (adapter_calls (snd (run (chat_with always_calls) ''q''))) = 5
   \<and> length (messages (snd (run (chat_with always_calls) ''q''))) = 11"
proof -
  have "always_wants (chat_with always_calls)"
    using two_catalogs_ok
    by (simp add: always_wants_def chat_with_def always_calls_def lookup_call_def
        wants_function_calls_def)
  with run_at_most_five_cycles[of "chat_with always_calls" "''q''"]
  show ?thesis by (simp add: chat_with_def)
qed

lemmas chat_eval = run_def run_loop.simps loop_body_def process_query_def chat_with_def
  text_after_def lookup_call_def done_text_def get_all_tools_def execute_tool_requests_def
  add_assistant_message_def add_user_message_def wants_function_calls_def response_text_def
  max_iterations_def gemini_tool_def eval_defs

text \<open>
  C2. The claim is that a response without function calls ends the run with its text,
  on whichever iteration it arrives. With the adapter that asks for a tool four times
  and answers \<open>done\<close> on its fifth call, \<open>run\<close> calls the adapter five times, the fifth
  response is the plain text \<open>done\<close> and is appended to the transcript, and \<open>run\<close>
  returns the fallback text instead of \<open>done\<close>. With the plain text on the fourth call
  it returns \<open>done\<close>.
\<close>

theorem plain_text_on_fifth_iteration_is_replaced:
  "fst (run (chat_with (text_after 9)) ''q'') = Inr fallback_text
   \<and> length (adapter_calls (snd (run (chat_with (text_after 9)) ''q''))) = 5
   \<and> text_after 9 (last (adapter_calls (snd (run (chat_with (text_after 9)) ''q'')))) [] = Inr done_text
   \<and> \<not> wants_function_calls done_text
   \<and> response_text done_text = ''done''
   \<and> last (messages (snd (run (chat_with (text_after 9)) ''q'')))
        = \<lparr>m_role = Assistant, m_content = Text ''done''\<rparr>
   \<and> fst (run (chat_with (text_after 7)) ''q'') = Inr ''done''"
  by (simp add: chat_eval)

text \<open>
  The general shape of the result: a pass that ends with plain text leaves the cycle
  with that text and the incremented counter, and \<open>run\<close> returns the text only when
  that counter is below five.
\<close>

lemma run_loop_break:
  assumes "ic < max_iterations" and "fst (loop_body chat) = Inr (Some t)"
  shows "fst (run_loop ic f chat) = Inr (t, Suc ic)"
  using assms by (cases "loop_body chat") (simp add: run_loop_step)

lemma run_result_by_count:
  assumes "fst (run_loop 0 [] (process_query chat query)) = Inr (t, n)"
  shows "fst (run chat query) = Inr (if 5 \<le> n then fallback_text else t)"
  using assms by (cases "run_loop 0 [] (process_query chat query)") (simp add: run_def max_iterations_def)

lemma add_assistant_calls:
  assumes "resp_function_calls r = Some fcs" and "fcs \<noteq> []"
  shows "messages (add_assistant_message c r) = messages c @
           [\<lparr>m_role = Assistant,
             m_content = Parts ((case resp_text r of
                                   Some t \<Rightarrow> if t \<noteq> [] then [TextPart t] else []
                                 | None \<Rightarrow> []) @
                                map (\<lambda>fc. FunctionCallPart (fc_name fc) (fc_args fc)) fcs)\<rparr>]"
  using assms by (simp add: add_assistant_message_def wants_function_calls_def Let_def)

lemma tool_turn:
  assumes g: "get_all_tools (chat_clients chat) = (Inr tools, cl1)"
      and a: "ai_service chat (messages chat) tools = Inr r"
      and f: "resp_function_calls r = Some fcs" and ne: "fcs \<noteq> []"
      and e: "execute_tool_requests cl1 r = (Inr parts, cl3)"
  shows "fst (loop_body chat) = Inr None"
    and "length parts = length fcs"
    and "messages (snd (loop_body chat)) = messages chat @
           [\<lparr>m_role = Assistant,
             m_content = Parts ((case resp_text r of
                                   Some t \<Rightarrow> if t \<noteq> [] then [TextPart t] else []
                                 | None \<Rightarrow> []) @
                                map (\<lambda>fc. FunctionCallPart (fc_name fc) (fc_args fc)) fcs)\<rparr>,
            \<lparr>m_role = User,
             m_content = Text (results_header @ concat (map result_line parts))\<rparr>]"
proof -
  have w: "wants_function_calls r" using f ne by (simp add: wants_function_calls_def)
  have lb: "loop_body chat = (Inr None,
          add_user_message ((add_assistant_message (chat\<lparr>chat_clients := cl1,
                           adapter_calls := adapter_calls chat @ [messages chat]\<rparr>) r)
            \<lparr>chat_clients := cl3\<rparr>) parts)"
    using g a w e by (simp add: loop_body_def Let_def)
  show "fst (loop_body chat) = Inr None" by (simp add: lb)
  from e w f have "execute_gemini_function_calls cl1 fcs = (Inr parts, cl3)"
    by (simp add: execute_tool_requests_def)
  then show len: "length parts = length fcs" by (rule gemini_length)
  with ne have "parts \<noteq> []" by auto
  then show "messages (snd (loop_body chat)) = messages chat @
           [\<lparr>m_role = Assistant,
             m_content = Parts ((case resp_text r of
                                   Some t \<Rightarrow> if t \<noteq> [] then [TextPart t] else []
                                 | None \<Rightarrow> []) @
                                map (\<lambda>fc. FunctionCallPart (fc_name fc) (fc_args fc)) fcs)\<rparr>,
            \<lparr>m_role = User,
             m_content = Text (results_header @ concat (map result_line parts))\<rparr>]"
    by (simp add: lb add_user_messages add_assistant_calls[OF f ne])
qed

lemma continue_is_tool_turn:
  assumes "fst (loop_body chat) = Inr None"
  shows "\<exists>tools cl1 r fcs parts cl3.
           get_all_tools (chat_clients chat) = (Inr tools, cl1) \<and>
           ai_service chat (messages chat) tools = Inr r \<and>
           resp_function_calls r = Some fcs \<and> fcs \<noteq> [] \<and>
           execute_tool_requests cl1 r = (Inr parts, cl3)"
proof (cases chat rule: loop_body_cases)
  case (tools_run r tools cl1 parts cl3)
  from tools_run(3) obtain fcs where "resp_function_calls r = Some fcs" "fcs \<noteq> []"
    by (auto simp: wants_function_calls_def split: option.splits)
  with tools_run(1,2,4) show ?thesis by blast
qed (use assms in simp_all)

text \<open>
  C9. Every transcript that a run passes to the adapter is the transcript the run
  started from, followed by messages in which each assistant message with function-call
  parts is followed at once by a user message with tool results, and none is last.
  When the response of a pass carries function calls and the tool requests return their
  results, the pass appends the assistant message with the function-call parts and then
  the user message built from exactly those results, one result per function call, and
  goes on to the next model call; a pass goes on to the next model call in no other
  way. The user message is the header line and one line
  \<open>- id: SUCCESS or ERROR - content\<close> per result, or the placeholder text when there is
  no result.
\<close>

theorem tool_call_message_is_followed_by_results:
  "(\<exists>new. adapter_calls (snd (run chat query)) = adapter_calls chat @ new
          \<and> list_all (paired_after (messages chat)) new)
   \<and> (get_all_tools (chat_clients chat) = (Inr tools, cl1) \<and>
       ai_service chat (messages chat) tools = Inr r \<and>
       resp_function_calls r = Some fcs \<and> fcs \<noteq> [] \<and>
       execute_tool_requests cl1 r = (Inr parts, cl3) \<longrightarrow>
         fst (loop_body chat) = Inr None \<and>
         length parts = length fcs \<and>
         messages (snd (loop_body chat)) = messages chat @
           [\<lparr>m_role = Assistant,
             m_content = Parts ((case resp_text r of
                                   Some t \<Rightarrow> if t \<noteq> [] then [TextPart t] else []
                                 | None \<Rightarrow> []) @
                                map (\<lambda>fc. FunctionCallPart (fc_name fc) (fc_args fc)) fcs)\<rparr>,
            \<lparr>m_role = User,
             m_content = Text
               (''Tool execution results:'' @ [CHR 0x0A] @
                concat (map (\<lambda>result. ''- '' @ tool_use_id result @ '': '' @
                               (if is_error result then ''ERROR'' else ''SUCCESS'') @
                               '' - '' @ tr_content result @ [CHR 0x0A]) parts))\<rparr>])
   \<and> (fst (loop_body chat) = Inr None \<longrightarrow>
        (\<exists>tools cl1 r fcs parts cl3.
           get_all_tools (chat_clients chat) = (Inr tools, cl1) \<and>
           ai_service chat (messages chat) tools = Inr r \<and>
           resp_function_calls r = Some fcs \<and> fcs \<noteq> [] \<and>
           execute_tool_requests cl1 r = (Inr parts, cl3)))
   \<and> messages (add_user_message chat results) = messages chat @
        [\<lparr>m_role = User,
          m_content = Text
            (if results = [] then ''Tool execution completed with no results.''
             else ''Tool execution results:'' @ [CHR 0x0A] @
                  concat (map (\<lambda>result. ''- '' @ tool_use_id result @ '': '' @
                                 (if is_error result then ''ERROR'' else ''SUCCESS'') @
                                 '' - '' @ tr_content result @ [CHR 0x0A]) results))\<rparr>]"
proof (intro conjI impI)
  have "paired_after (messages chat) (messages (process_query chat query))"
    by (simp add: paired_after_def user_no_calls)
  with run_loop_log[of 5 0 "[]" "process_query chat query" "messages chat"]
  show "\<exists>new. adapter_calls (snd (run chat query)) = adapter_calls chat @ new
          \<and> list_all (paired_after (messages chat)) new"
    by (auto simp: run_snd max_iterations_def)
next
  assume h: "get_all_tools (chat_clients chat) = (Inr tools, cl1) \<and>
       ai_service chat (messages chat) tools = Inr r \<and>
       resp_function_calls r = Some fcs \<and> fcs \<noteq> [] \<and>
       execute_tool_requests cl1 r = (Inr parts, cl3)"
  then have g: "get_all_tools (chat_clients chat) = (Inr tools, cl1)"
    and a: "ai_service chat (messages chat) tools = Inr r"
    and f: "resp_function_calls r = Some fcs" and ne: "fcs \<noteq> []"
    and e: "execute_tool_requests cl1 r = (Inr parts, cl3)" by simp_all
  have rl: "result_line = (\<lambda>result. ''- '' @ tool_use_id result @ '': '' @
                                 (if is_error result then ''ERROR'' else ''SUCCESS'') @
                                 '' - '' @ tr_content result @ [CHR 0x0A])"
    by (rule ext) (simp add: result_line_def)
  show "fst (loop_body chat) = Inr None" by (rule tool_turn(1)[OF g a f ne e])
  show "length parts = length fcs" by (rule tool_turn(2)[OF g a f ne e])
  show "messages (snd (loop_body chat)) = messages chat @
           [\<lparr>m_role = Assistant,
             m_content = Parts ((case resp_text r of
                                   Some t \<Rightarrow> if t \<noteq> [] then [TextPart t] else []
                                 | None \<Rightarrow> []) @
                                map (\<lambda>fc. FunctionCallPart (fc_name fc) (fc_args fc)) fcs)\<rparr>,
            \<lparr>m_role = User,
             m_content = Text
               (''Tool execution results:'' @ [CHR 0x0A] @
                concat (map (\<lambda>result. ''- '' @ tool_use_id result @ '': '' @
                               (if is_error result then ''ERROR'' else ''SUCCESS'') @
                               '' - '' @ tr_content result @ [CHR 0x0A]) parts))\<rparr>]"
    using tool_turn(3)[OF g a f ne e] by (simp add: results_header_def rl)
next
  assume "fst (loop_body chat) = Inr None"
  then show "\<exists>tools cl1 r fcs parts cl3.
           get_all_tools (chat_clients chat) = (Inr tools, cl1) \<and>
           ai_service chat (messages chat) tools = Inr r \<and>
           resp_function_calls r = Some fcs \<and> fcs \<noteq> [] \<and>
           execute_tool_requests cl1 r = (Inr parts, cl3)"
    by (rule continue_is_tool_turn)
next
  have "result_line = (\<lambda>result. ''- '' @ tool_use_id result @ '': '' @
                                 (if is_error result then ''ERROR'' else ''SUCCESS'') @
                                 '' - '' @ tr_content result @ [CHR 0x0A])"
    by (rule ext) (simp add: result_line_def)
  then show "messages (add_user_message chat results) = messages chat @
        [\<lparr>m_role = User,
          m_content = Text
            (if results = [] then ''Tool execution completed with no results.''
             else ''Tool execution results:'' @ [CHR 0x0A] @
                  concat (map (\<lambda>result. ''- '' @ tool_use_id result @ '': '' @
                                 (if is_error result then ''ERROR'' else ''SUCCESS'') @
                                 '' - '' @ tr_content result @ [CHR 0x0A]) results))\<rparr>]"
    by (simp add: add_user_messages no_results_text_def results_header_def)
qed

theorem tool_call_message_is_followed_by_results_witness:
  "adapter_calls (snd (run (chat_with (calls_then_text 3)) ''q'')) =
     [[\<lparr>m_role = User, m_content = Text ''q''\<rparr>],
      [\<lparr>m_role = User, m_content = Text ''q''\<rparr>,
       \<lparr>m_role = Assistant,
        m_content = Parts [TextPart ''working'', FunctionCallPart ''search'' (JDict []),
                           FunctionCallPart ''fetch'' (JDict [])]\<rparr>,
       \<lparr>m_role = User, m_content = Text (''Tool execution results:'' @ [CHR 0x0A] @
          ''- gemini_call_0_search: SUCCESS - ['' @ [CHR 0x22] @ ''hit'' @ [CHR 0x22] @ '']''
            @ [CHR 0x0A] @
          ''- gemini_call_1_fetch: ERROR - {'' @ [CHR 0x22] @ ''error'' @ [CHR 0x22] @ '': ''
            @ [CHR 0x22] @ ''Error executing tool '' @ [CHR 0x27] @ ''fetch'' @ [CHR 0x27]
            @ '': boom'' @ [CHR 0x22] @ ''}'' @ [CHR 0x0A])\<rparr>]]
   \<and> list_all (paired_after []) (adapter_calls (snd (run (chat_with (calls_then_text 3)) ''q'')))
   \<and> fst (loop_body (process_query (chat_with (calls_then_text 3)) ''q'')) = Inr None
   \<and> messages (snd (loop_body (process_query (chat_with (calls_then_text 3)) ''q''))) =
      [\<lparr>m_role = User, m_content = Text ''q''\<rparr>,
       \<lparr>m_role = Assistant,
        m_content = Parts [TextPart ''working'', FunctionCallPart ''search'' (JDict []),
                           FunctionCallPart ''fetch'' (JDict [])]\<rparr>,
       \<lparr>m_role = User, m_content = Text (''Tool execution results:'' @ [CHR 0x0A] @
          ''- gemini_call_0_search: SUCCESS - ['' @ [CHR 0x22] @ ''hit'' @ [CHR 0x22] @ '']''
            @ [CHR 0x0A] @
          ''- gemini_call_1_fetch: ERROR - {'' @ [CHR 0x22] @ ''error'' @ [CHR 0x22] @ '': ''
            @ [CHR 0x22] @ ''Error executing tool '' @ [CHR 0x27] @ ''fetch'' @ [CHR 0x27]
            @ '': boom'' @ [CHR 0x22] @ ''}'' @ [CHR 0x0A])\<rparr>]
   \<and> messages (add_user_message (chat_with always_calls) []) =
      [\<lparr>m_role = User, m_content = Text ''Tool execution completed with no results.''\<rparr>]"
proof -
  let ?chat = "process_query (chat_with (calls_then_text 3)) ''q''"
  let ?fcs = "[\<lparr>fc_name = ''search'', fc_args = JDict []\<rparr>,
               \<lparr>fc_name = ''fetch'', fc_args = JDict []\<rparr>]"
  let ?parts = "[\<lparr>tool_use_id = ''gemini_call_0_search'', tr_type = ''tool_result'',
            tr_content = [CHR ''['', CHR 0x22, CHR ''h'', CHR ''i'', CHR ''t'', CHR 0x22, CHR '']''],
            is_error = False\<rparr>,
           \<lparr>tool_use_id = ''gemini_call_1_fetch'', tr_type = ''tool_result'',
            tr_content = ''{'' @ [CHR 0x22] @ ''error'' @ [CHR 0x22] @ '': '' @ [CHR 0x22]
              @ ''Error executing tool '' @ [CHR 0x27] @ ''fetch'' @ [CHR 0x27] @ '': boom''
              @ [CHR 0x22] @ ''}'',
            is_error = True\<rparr>]"
  have ev: "adapter_calls (snd (run (chat_with (calls_then_text 3)) ''q'')) =
     [[\<lparr>m_role = User, m_content = Text ''q''\<rparr>],
      [\<lparr>m_role = User, m_content = Text ''q''\<rparr>,
       \<lparr>m_role = Assistant,
        m_content = Parts [TextPart ''working'', FunctionCallPart ''search'' (JDict []),
                           FunctionCallPart ''fetch'' (JDict [])]\<rparr>,
       \<lparr>m_role = User, m_content = Text (''Tool execution results:'' @ [CHR 0x0A] @
          ''- gemini_call_0_search: SUCCESS - ['' @ [CHR 0x22] @ ''hit'' @ [CHR 0x22] @ '']''
            @ [CHR 0x0A] @
          ''- gemini_call_1_fetch: ERROR - {'' @ [CHR 0x22] @ ''error'' @ [CHR 0x22] @ '': ''
            @ [CHR 0x22] @ ''Error executing tool '' @ [CHR 0x27] @ ''fetch'' @ [CHR 0x27]
            @ '': boom'' @ [CHR 0x22] @ ''}'' @ [CHR 0x0A])\<rparr>]]"
    by (simp add: chat_eval calls_then_text_def search_fetch_call_def result_line_def
        results_header_def)
  obtain g cl1 where g0: "get_all_tools (chat_clients ?chat) = (g, cl1)"
    by (cases "get_all_tools (chat_clients ?chat)")
  have "\<exists>tools. fst (get_all_tools (chat_clients ?chat)) = Inr tools"
    by (simp add: chat_eval)
  with g0 obtain tools where g: "get_all_tools (chat_clients ?chat) = (Inr tools, cl1)" by auto
  have a: "ai_service ?chat (messages ?chat) tools = Inr search_fetch_call"
    by (simp add: chat_with_def calls_then_text_def)
  have f: "resp_function_calls search_fetch_call = Some ?fcs"
    by (simp add: search_fetch_call_def)
  obtain x cl3 where e0: "execute_tool_requests cl1 search_fetch_call = (x, cl3)"
    by (cases "execute_tool_requests cl1 search_fetch_call")
  have cl1: "cl1 = snd (get_all_tools two_clients)" using g by (simp add: chat_with_def)
  have "fst (execute_tool_requests (snd (get_all_tools two_clients)) search_fetch_call) = Inr ?parts"
    by (simp add: chat_eval search_fetch_call_def)
  with e0 cl1 have e: "execute_tool_requests cl1 search_fetch_call = (Inr ?parts, cl3)" by simp
  note t = tool_call_message_is_followed_by_results[of ?chat "''q''" tools cl1 search_fetch_call
      ?fcs ?parts cl3 "[]"]
  from t g a f e have lb: "fst (loop_body ?chat) = Inr None"
    and ms: "messages (snd (loop_body ?chat)) = messages ?chat @
           [\<lparr>m_role = Assistant,
             m_content = Parts ((case resp_text search_fetch_call of
                                   Some t \<Rightarrow> if t \<noteq> [] then [TextPart t] else []
                                 | None \<Rightarrow> []) @
                                map (\<lambda>fc. FunctionCallPart (fc_name fc) (fc_args fc)) ?fcs)\<rparr>,
            \<lparr>m_role = User,
             m_content = Text
               (''Tool execution results:'' @ [CHR 0x0A] @
                concat (map (\<lambda>result. ''- '' @ tool_use_id result @ '': '' @
                               (if is_error result then ''ERROR'' else ''SUCCESS'') @
                               '' - '' @ tr_content result @ [CHR 0x0A]) ?parts))\<rparr>]"
    by simp_all
  from tool_call_message_is_followed_by_results[of "chat_with (calls_then_text 3)" "''q''"]
  have pa: "list_all (paired_after []) (adapter_calls (snd (run (chat_with (calls_then_text 3)) ''q'')))"
    by (auto simp: chat_with_def)
  from tool_call_message_is_followed_by_results[of "chat_with always_calls" _ _ _ _ _ _ _ "[]"]
  have ph: "messages (add_user_message (chat_with always_calls) []) =
      [\<lparr>m_role = User, m_content = Text ''Tool execution completed with no results.''\<rparr>]"
    by (simp add: chat_with_def)
  from ms have ms': "messages (snd (loop_body ?chat)) =
      [\<lparr>m_role = User, m_content = Text ''q''\<rparr>,
       \<lparr>m_role = Assistant,
        m_content = Parts [TextPart ''working'', FunctionCallPart ''search'' (JDict []),
                           FunctionCallPart ''fetch'' (JDict [])]\<rparr>,
       \<lparr>m_role = User, m_content = Text (''Tool execution results:'' @ [CHR 0x0A] @
          ''- gemini_call_0_search: SUCCESS - ['' @ [CHR 0x22] @ ''hit'' @ [CHR 0x22] @ '']''
            @ [CHR 0x0A] @
          ''- gemini_call_1_fetch: ERROR - {'' @ [CHR 0x22] @ ''error'' @ [CHR 0x22] @ '': ''
            @ [CHR 0x22] @ ''Error executing tool '' @ [CHR 0x27] @ ''fetch'' @ [CHR 0x27]
            @ '': boom'' @ [CHR 0x22] @ ''}'' @ [CHR 0x0A])\<rparr>]"
    by (simp add: chat_with_def search_fetch_call_def)
  show ?thesis
    by (intro conjI) (rule ev, rule pa, rule lb, rule ms', rule ph)
qed

end
